theory Spec2Isabelle
  imports Complex_Main
begin

section \<open>The Odin loader of cantools (cantools/database/can/formats/odin.py)\<close>

text \<open>
  The loader reads a parsed JSON document and builds an internal database of messages,
  nodes and buses. The embedding follows the Python source function by function. Every
  exception of the source is a value \<open>Inl e\<close> of the result; a returned value is \<open>Inr v\<close>.
\<close>

subsection \<open>JSON values, errors and the Python runtime\<close>

text \<open>
  What \<open>json.loads\<close> returns: \<open>None\<close>, a bool, an int, a float, a str, a list or a dict.
  A dict is the list of its items in iteration order (insertion order); the keys of a dict
  are pairwise distinct. The type \<open>'f\<close> is the type of Python floats, which the embedding
  leaves open. Python's \<open>None\<close> is \<open>JNull\<close>. A \<open>char\<close> stands for one character of a str.
\<close>

datatype 'f json =
    JNull
  | JBool bool
  | JInt int
  | JFloat 'f
  | JStr string
  | JArr "'f json list"
  | JObj "(string \<times> 'f json) list"

text \<open>
  The exception classes that the loader can raise. Only the \<open>ValueError\<close> that the source
  raises itself carries its message; the messages of the interpreter's own errors are not
  modelled.
\<close>

datatype error =
    JSONDecodeError
  | KeyError
  | ValueError string
  | TypeError
  | AttributeError
  | OverflowError

text \<open>
  The parts of the Python runtime that are not code of the loader and that no shallow
  embedding computes: the JSON parser, the parsing of numbers out of strings, and floating
  point. They are parameters of every function that needs them.
  \<^item> \<open>json_loads s\<close> is \<open>json.loads(s)\<close>;
  \<^item> \<open>int_of_str s\<close> is \<open>int(s)\<close> and \<open>float_of_str s\<close> is \<open>float(s)\<close> for a str;
  \<^item> \<open>int_of_float x\<close> is \<open>int(x)\<close> for a float, \<open>float_of_int n\<close> is \<open>float(n)\<close>;
  \<^item> \<open>float_eq_int x n\<close> is \<open>x == n\<close> for a float and an int; \<open>float_eq x y\<close> says that
    two floats are the same key of a dict or member of a set (\<open>x is y or x == y\<close>).
\<close>

record 'f runtime =
  json_loads :: "string \<Rightarrow> error + 'f json"
  int_of_str :: "string \<Rightarrow> error + int"
  float_of_str :: "string \<Rightarrow> error + 'f"
  int_of_float :: "'f \<Rightarrow> error + int"
  float_of_int :: "int \<Rightarrow> error + 'f"
  float_eq_int :: "'f \<Rightarrow> int \<Rightarrow> bool"
  float_eq :: "'f \<Rightarrow> 'f \<Rightarrow> bool"

text \<open>Sequencing: an exception of the first statement skips the rest.\<close>

definition bindE :: "error + 'a \<Rightarrow> ('a \<Rightarrow> error + 'b) \<Rightarrow> error + 'b" where
  "bindE m f = (case m of Inl e \<Rightarrow> Inl e | Inr v \<Rightarrow> f v)"

text \<open>\<open>int(v)\<close> and \<open>float(v)\<close> of a JSON value.\<close>

fun py_int :: "'f runtime \<Rightarrow> 'f json \<Rightarrow> error + int" where
  "py_int rt (JInt n) = Inr n"
| "py_int rt (JBool b) = Inr (if b then 1 else 0)"
| "py_int rt (JFloat x) = int_of_float rt x"
| "py_int rt (JStr s) = int_of_str rt s"
| "py_int rt JNull = Inl TypeError"
| "py_int rt (JArr xs) = Inl TypeError"
| "py_int rt (JObj kvs) = Inl TypeError"

fun py_float :: "'f runtime \<Rightarrow> 'f json \<Rightarrow> error + 'f" where
  "py_float rt (JInt n) = float_of_int rt n"
| "py_float rt (JBool b) = float_of_int rt (if b then 1 else 0)"
| "py_float rt (JFloat x) = Inr x"
| "py_float rt (JStr s) = float_of_str rt s"
| "py_float rt JNull = Inl TypeError"
| "py_float rt (JArr xs) = Inl TypeError"
| "py_float rt (JObj kvs) = Inl TypeError"

text \<open>The truth value of a JSON value in a condition (\<open>if v:\<close>).\<close>

fun truthy :: "'f runtime \<Rightarrow> 'f json \<Rightarrow> bool" where
  "truthy rt JNull = False"
| "truthy rt (JBool b) = b"
| "truthy rt (JInt n) = (n \<noteq> 0)"
| "truthy rt (JFloat x) = (\<not> float_eq_int rt x 0)"
| "truthy rt (JStr s) = (s \<noteq> [])"
| "truthy rt (JArr xs) = (xs \<noteq> [])"
| "truthy rt (JObj kvs) = (kvs \<noteq> [])"

text \<open>
  \<open>a == b\<close> where at least one side is \<open>None\<close>, a bool, a number or a str (the loader
  compares a value with \<open>True\<close>, and the keys of a dict and the members of a set with
  each other; those are hashable, so never a list or a dict). A bool is the number 0 or 1.
\<close>

fun num_of :: "'f json \<Rightarrow> int option" where
  "num_of (JBool b) = Some (if b then 1 else 0)"
| "num_of (JInt n) = Some n"
| "num_of v = None"

fun py_eq :: "'f runtime \<Rightarrow> 'f json \<Rightarrow> 'f json \<Rightarrow> bool" where
  "py_eq rt JNull b = (b = JNull)"
| "py_eq rt (JStr s) b = (b = JStr s)"
| "py_eq rt (JFloat x) (JFloat y) = float_eq rt x y"
| "py_eq rt (JFloat x) b = (case num_of b of Some n \<Rightarrow> float_eq_int rt x n | None \<Rightarrow> False)"
| "py_eq rt a (JFloat y) = (case num_of a of Some n \<Rightarrow> float_eq_int rt y n | None \<Rightarrow> False)"
| "py_eq rt a b =
     (case (num_of a, num_of b) of (Some m, Some n) \<Rightarrow> m = n | _ \<Rightarrow> False)"

text \<open>\<open>hash(v)\<close> raises a \<open>TypeError\<close> for a list and for a dict.\<close>

fun hashable :: "'f json \<Rightarrow> bool" where
  "hashable (JArr xs) = False"
| "hashable (JObj kvs) = False"
| "hashable v = True"

text \<open>\<open>k in s\<close> for two strs: \<open>k\<close> occurs in \<open>s\<close> as a substring.\<close>

fun starts_with :: "string \<Rightarrow> string \<Rightarrow> bool" where
  "starts_with s [] = True"
| "starts_with [] (k # ks) = False"
| "starts_with (c # cs) (k # ks) = (c = k \<and> starts_with cs ks)"

fun is_substring :: "string \<Rightarrow> string \<Rightarrow> bool" where
  "is_substring k [] = (k = [])"
| "is_substring k (c # cs) = (starts_with (c # cs) k \<or> is_substring k cs)"

text \<open>
  \<open>key in element\<close> and \<open>element[key]\<close> for a str \<open>key\<close>. A dict looks the key up; a list
  and a str answer \<open>in\<close> (membership, substring) but cannot be indexed by a str; the other
  values raise a \<open>TypeError\<close> at once.
\<close>

fun py_contains :: "'f json \<Rightarrow> string \<Rightarrow> error + bool" where
  "py_contains (JObj kvs) key = Inr (map_of kvs key \<noteq> None)"
| "py_contains (JArr xs) key = Inr (JStr key \<in> set xs)"
| "py_contains (JStr s) key = Inr (is_substring key s)"
| "py_contains v key = Inl TypeError"

fun py_getitem :: "'f json \<Rightarrow> string \<Rightarrow> error + 'f json" where
  "py_getitem (JObj kvs) key = (case map_of kvs key of None \<Rightarrow> Inl KeyError | Some v \<Rightarrow> Inr v)"
| "py_getitem v key = Inl TypeError"

subsection \<open>The field extractor and the bit position normalizer\<close>

text \<open>
  \<^verbatim>\<open>def _get_value(element, key, default):
    if key in element: return element[key]
    else: return default\<close>
  (An Isabelle name cannot start with an underscore: \<open>_get_value\<close> is \<open>get_value\<close>, and so
  on; \<open>_start_bit\<close> is \<open>odin_start_bit\<close>, since \<open>start_bit\<close> is another function.)
\<close>

definition get_value :: "'f json \<Rightarrow> string \<Rightarrow> 'f json \<Rightarrow> error + 'f json" where
  "get_value element key dflt =
     bindE (py_contains element key)
       (\<lambda>found. if found then py_getitem element key else Inr dflt)"

text \<open>
  \<^verbatim>\<open>def _start_bit(offset, byte_order):
    if byte_order == 'big_endian':
        return (8 * (offset // 8) + (7 - (offset % 8)))
    else:
        return offset\<close>
  The offset is an int or \<open>None\<close>; \<open>None // 8\<close> raises a \<open>TypeError\<close>. Python's \<open>//\<close> and
  \<open>%\<close> round to minus infinity, as \<open>div\<close> and \<open>mod\<close> on \<open>int\<close> do.
\<close>

definition odin_start_bit :: "int option \<Rightarrow> string \<Rightarrow> error + int option" where
  "odin_start_bit offset byte_order =
     (if byte_order = ''big_endian''
      then (case offset of
              None \<Rightarrow> Inl TypeError
            | Some off \<Rightarrow> Inr (Some (8 * (off div 8) + (7 - (off mod 8)))))
      else Inr offset)"

subsection \<open>The signal builder\<close>

text \<open>
  Modelled from the spec: the class \<open>Signal\<close> (cantools/database/can/signal.py) is not part
  of the loader's file. A signal is the record of the constructor's arguments and of the
  four attributes that the loader sets afterwards, which start as the spec gives them:
  \<open>is_multiplexer\<close> and \<open>is_multiplexed\<close> false, \<open>multiplexer_ids\<close> and
  \<open>multiplexer_signal\<close> unset. The object \<open>decimal\<close> is its two attributes \<open>scale\<close> and
  \<open>offset\<close>. The fields that the loader copies from the document without a conversion
  (\<open>receivers\<close>, \<open>unit\<close>) hold the JSON value. \<open>choices\<close> is a dict whose keys are raw
  values: the list of its items in insertion order.
\<close>

record 'f signal =
  sig_name :: string
  sig_start :: "int option"
  sig_length :: int
  sig_receivers :: "'f json"
  sig_byte_order :: string
  sig_is_signed :: bool
  sig_scale :: 'f
  sig_offset :: 'f
  sig_minimum :: "int option"
  sig_maximum :: "int option"
  sig_unit :: "'f json"
  sig_choices :: "('f json \<times> string) list option"
  sig_comment :: "string option"
  sig_is_float :: bool
  sig_decimal_scale :: 'f
  sig_decimal_offset :: 'f
  sig_multiplexer_ids :: "int list option"
  sig_is_multiplexed :: bool
  sig_is_multiplexer :: bool
  sig_multiplexer_signal :: "string option"

text \<open>
  \<open>d[k] = v\<close> on a dict: an unhashable key raises a \<open>TypeError\<close>; a key equal to one
  of the dict keeps that item's place and key and replaces its value; a new key goes last.
\<close>

fun dict_put :: "'f runtime \<Rightarrow> ('f json \<times> 'v) list \<Rightarrow> 'f json \<Rightarrow> 'v \<Rightarrow> ('f json \<times> 'v) list" where
  "dict_put rt [] k v = [(k, v)]"
| "dict_put rt ((k', v') # d) k v =
     (if py_eq rt k' k then (k', v) # d else (k', v') # dict_put rt d k v)"

definition dict_set ::
  "'f runtime \<Rightarrow> ('f json \<times> 'v) list \<Rightarrow> 'f json \<Rightarrow> 'v \<Rightarrow> error + ('f json \<times> 'v) list" where
  "dict_set rt d k v = (if hashable k then Inr (dict_put rt d k v) else Inl TypeError)"

text \<open>
  \<^verbatim>\<open>for k, v in value_description.items():
    labels[v] = k\<close>
\<close>

fun invert_items ::
  "'f runtime \<Rightarrow> ('f json \<times> string) list \<Rightarrow> (string \<times> 'f json) list
     \<Rightarrow> error + ('f json \<times> string) list" where
  "invert_items rt labels [] = Inr labels"
| "invert_items rt labels ((k, v) # rest) =
     bindE (dict_set rt labels v k) (\<lambda>labels'. invert_items rt labels' rest)"

text \<open>
  \<^verbatim>\<open>labels = None
value_description = _get_value(signal_json, 'value_description', None)
if value_description:
    labels = {}
    for k, v in value_description.items(): ...\<close>
  Only a dict has \<open>items\<close>.
\<close>

definition load_labels :: "'f runtime \<Rightarrow> 'f json \<Rightarrow> error + ('f json \<times> string) list option" where
  "load_labels rt value_description =
     (if truthy rt value_description
      then (case value_description of
              JObj kvs \<Rightarrow> bindE (invert_items rt [] kvs) (\<lambda>labels. Inr (Some labels))
            | _ \<Rightarrow> Inl AttributeError)
      else Inr None)"

text \<open>\<open>int(v) if v is not None else None\<close>\<close>

definition int_or_none :: "'f runtime \<Rightarrow> 'f json \<Rightarrow> error + int option" where
  "int_or_none rt v = (if v \<noteq> JNull then bindE (py_int rt v) (\<lambda>n. Inr (Some n)) else Inr None)"

text \<open>
  \<open>_load_signal(signal_json, name)\<close>, statement by statement. The arguments of the
  constructor are evaluated in the order of the call, so \<open>_start_bit\<close> runs after the
  value descriptions are read and before \<open>mux_id\<close> is.
\<close>

definition load_signal :: "'f runtime \<Rightarrow> 'f json \<Rightarrow> string \<Rightarrow> error + 'f signal" where
  "load_signal rt signal_json name =
     bindE (get_value signal_json ''width'' (JInt 1)) (\<lambda>width.
     bindE (py_int rt width) (\<lambda>length.
     bindE (get_value signal_json ''start_position'' JNull) (\<lambda>start_position.
     bindE (int_or_none rt start_position) (\<lambda>offset.
     bindE (get_value signal_json ''signedness'' (JStr ''UNSIGNED'')) (\<lambda>signedness.
     bindE (get_value signal_json ''endianness'' (JStr ''LITTLE'')) (\<lambda>endianness.
     bindE (get_value signal_json ''minimum'' JNull) (\<lambda>minimum_raw.
     bindE (int_or_none rt minimum_raw) (\<lambda>minimum.
     bindE (get_value signal_json ''maximum'' JNull) (\<lambda>maximum_raw.
     bindE (int_or_none rt maximum_raw) (\<lambda>maximum.
     bindE (get_value signal_json ''receivers'' (JArr [])) (\<lambda>receivers.
     bindE (get_value signal_json ''scale'' (JInt 1)) (\<lambda>scale_raw.
     bindE (py_float rt scale_raw) (\<lambda>slope.
     bindE (get_value signal_json ''units'' JNull) (\<lambda>unit.
     bindE (get_value signal_json ''offset'' (JInt 0)) (\<lambda>offset_raw.
     bindE (py_float rt offset_raw) (\<lambda>intercept.
     bindE (get_value signal_json ''value_description'' JNull) (\<lambda>value_description.
     bindE (load_labels rt value_description) (\<lambda>labels.
     let is_signed = (signedness = JStr ''SIGNED'');
         byte_order = (if endianness = JStr ''BIG'' then ''big_endian'' else ''little_endian'')
     in
     bindE (odin_start_bit offset byte_order) (\<lambda>start.
     bindE (get_value signal_json ''mux_id'' JNull) (\<lambda>mux_id.
     bindE (int_or_none rt mux_id) (\<lambda>mux.
     bindE (get_value signal_json ''is_muxer'' JNull) (\<lambda>is_muxer.
     Inr \<lparr> sig_name = name,
           sig_start = start,
           sig_length = length,
           sig_receivers = receivers,
           sig_byte_order = byte_order,
           sig_is_signed = is_signed,
           sig_scale = slope,
           sig_offset = intercept,
           sig_minimum = minimum,
           sig_maximum = maximum,
           sig_unit = unit,
           sig_choices = labels,
           sig_comment = None,
           sig_is_float = False,
           sig_decimal_scale = slope,
           sig_decimal_offset = intercept,
           sig_multiplexer_ids = (case mux of None \<Rightarrow> None | Some n \<Rightarrow> Some [n]),
           sig_is_multiplexed = (mux \<noteq> None),
           sig_is_multiplexer = (is_muxer \<noteq> JNull \<and> py_eq rt is_muxer (JBool True)),
           sig_multiplexer_signal = None \<rparr>
     ))))))))))))))))))))))"

text \<open>
  \<^verbatim>\<open>def _parse_signals(signals_json):
    signals = []
    for name, signal in signals_json.items():
        new_signal = _load_signal(signal, name)
        if new_signal is not None: signals.append(new_signal)
    return signals\<close>
\<close>

fun parse_items :: "'f runtime \<Rightarrow> (string \<times> 'f json) list \<Rightarrow> error + 'f signal list" where
  "parse_items rt [] = Inr []"
| "parse_items rt ((name, signal) # rest) =
     bindE (load_signal rt signal name) (\<lambda>new_signal.
     bindE (parse_items rt rest) (\<lambda>signals. Inr (new_signal # signals)))"

definition parse_signals :: "'f runtime \<Rightarrow> 'f json \<Rightarrow> error + 'f signal list" where
  "parse_signals rt signals_json =
     (case signals_json of JObj kvs \<Rightarrow> parse_items rt kvs | _ \<Rightarrow> Inl AttributeError)"

subsection \<open>The message builder\<close>

text \<open>
  Modelled from the spec: the class \<open>Message\<close> (cantools/database/can/message.py) is not
  part of the loader's file. A message is the record of the constructor's arguments; the
  flag \<open>strict\<close> is carried unchanged. \<open>senders\<close>, \<open>send_type\<close> and \<open>bus_name\<close> hold the
  JSON value that the loader passes on.
\<close>

record 'f message =
  msg_frame_id :: int
  msg_is_extended_frame :: bool
  msg_name :: string
  msg_length :: int
  msg_senders :: "'f json"
  msg_send_type :: "'f json"
  msg_cycle_time :: "int option"
  msg_signals :: "'f signal list"
  msg_comment :: "string option"
  msg_bus_name :: "'f json"
  msg_strict :: bool

text \<open>
  Modelled from the spec: the helper \<open>start_bit\<close> of cantools/database/utils.py, the key
  that \<open>_load_message\<close> sorts the signals by, is not part of the loader's file. The spec
  sorts the signals by their canonical start bit, which is the start that the signal holds.
\<close>

definition start_bit :: "'f signal \<Rightarrow> int option" where
  "start_bit signal = sig_start signal"

text \<open>
  \<^verbatim>\<open>multiplexer = None
for signal in signals:
    if signal.is_multiplexer:
        multiplexer = signal.name\<close>
\<close>

definition find_multiplexer :: "'f signal list \<Rightarrow> string option" where
  "find_multiplexer signals =
     foldl (\<lambda>multiplexer signal.
              if sig_is_multiplexer signal then Some (sig_name signal) else multiplexer)
       None signals"

text \<open>
  \<^verbatim>\<open>if multiplexer:
    for signal in signals:
        if signal.multiplexer_ids and len(signal.multiplexer_ids) > 0:
            signal.multiplexer_signal = multiplexer\<close>
  The condition \<open>if multiplexer:\<close> is false for \<open>None\<close> and for the empty name.
\<close>

definition has_multiplexer_ids :: "'f signal \<Rightarrow> bool" where
  "has_multiplexer_ids signal =
     (case sig_multiplexer_ids signal of None \<Rightarrow> False | Some ids \<Rightarrow> ids \<noteq> [] \<and> length ids > 0)"

definition assign_multiplexer :: "string option \<Rightarrow> 'f signal list \<Rightarrow> 'f signal list" where
  "assign_multiplexer multiplexer signals =
     (case multiplexer of
        None \<Rightarrow> signals
      | Some m \<Rightarrow>
          if m \<noteq> []
          then map (\<lambda>signal. if has_multiplexer_ids signal
                             then signal\<lparr>sig_multiplexer_signal := Some m\<rparr>
                             else signal) signals
          else signals)"

text \<open>
  \<^verbatim>\<open>if length == 'auto':
    if signals:
        last_signal = sorted(signals, key=start_bit)[-1]
        length = (start_bit(last_signal) + last_signal.length + 7) // 8
    else:
        length = 0
else:
    length = int(length)\<close>
  \<open>sorted\<close> is stable, as \<open>sort_key\<close> is. A signal whose start is \<open>None\<close> (see
  \<open>_start_bit\<close>) makes this branch raise a \<open>TypeError\<close>: \<open>sorted\<close> cannot compare \<open>None\<close>
  with another key, and with one signal only \<open>None + last_signal.length\<close> raises.
\<close>

definition resolve_length :: "'f runtime \<Rightarrow> 'f json \<Rightarrow> 'f signal list \<Rightarrow> error + int" where
  "resolve_length rt length_raw signals =
     (if length_raw = JStr ''auto''
      then (if signals \<noteq> []
            then (if None \<in> set (map start_bit signals) then Inl TypeError
                  else (let last_signal = last (sort_key (\<lambda>s. the (start_bit s)) signals)
                        in Inr ((the (start_bit last_signal) + sig_length last_signal + 7) div 8)))
            else Inr 0)
      else py_int rt length_raw)"

text \<open>\<open>_load_message(message, name, bus_name, strict)\<close>, statement by statement.\<close>

definition load_message ::
  "'f runtime \<Rightarrow> 'f json \<Rightarrow> string \<Rightarrow> 'f json \<Rightarrow> bool \<Rightarrow> error + 'f message" where
  "load_message rt message name bus_name strict =
     bindE (get_value message ''message_id'' (JInt 0)) (\<lambda>message_id.
     bindE (py_int rt message_id) (\<lambda>frame_id.
     bindE (get_value message ''length_bytes'' (JStr ''auto'')) (\<lambda>length_raw.
     bindE (get_value message ''cycle_time'' JNull) (\<lambda>cycle_time_raw.
     bindE (int_or_none rt cycle_time_raw) (\<lambda>cycle_time.
     bindE (get_value message ''senders'' (JArr [])) (\<lambda>senders.
     bindE (get_value message ''send_type'' JNull) (\<lambda>send_type.
     bindE (get_value message ''signals'' (JObj [])) (\<lambda>signals_json.
     bindE (parse_signals rt signals_json) (\<lambda>parsed.
     let signals = assign_multiplexer (find_multiplexer parsed) parsed in
     bindE (resolve_length rt length_raw signals) (\<lambda>length.
     Inr \<lparr> msg_frame_id = frame_id,
           msg_is_extended_frame = False,
           msg_name = name,
           msg_length = length,
           msg_senders = senders,
           msg_send_type = send_type,
           msg_cycle_time = cycle_time,
           msg_signals = signals,
           msg_comment = None,
           msg_bus_name = bus_name,
           msg_strict = strict \<rparr>
     ))))))))))"

subsection \<open>The document assembler\<close>

text \<open>
  Modelled from the spec: the classes \<open>Node\<close> and \<open>InternalDatabase\<close> are not part of the
  loader's file; they are the records of their constructors' arguments. The loader puts
  the bus name itself, not a \<open>Bus\<close> object, into the list of buses.
\<close>

record 'f node =
  node_name :: "'f json"
  node_comment :: "string option"

record 'f database =
  db_messages :: "'f message list"
  db_nodes :: "'f node list"
  db_buses :: "'f json list"
  db_version :: string

text \<open>
  \<open>nodes\<close> is a Python set. The embedding keeps its members in a list, each once, in the
  order in which they were first added; the order in which Python iterates over a set
  depends on the hashes and is not modelled, so only the set of the members of the list
  has a meaning. \<open>nodes.update(v)\<close> iterates over \<open>v\<close> and adds each element: a list
  gives its elements, a str its characters, a dict its keys, anything else is not
  iterable; an unhashable element raises a \<open>TypeError\<close>.
\<close>

definition set_add :: "'f runtime \<Rightarrow> 'f json list \<Rightarrow> 'f json \<Rightarrow> 'f json list" where
  "set_add rt nodes x = (if list_ex (\<lambda>y. py_eq rt y x) nodes then nodes else nodes @ [x])"

fun add_all :: "'f runtime \<Rightarrow> 'f json list \<Rightarrow> 'f json list \<Rightarrow> error + 'f json list" where
  "add_all rt nodes [] = Inr nodes"
| "add_all rt nodes (x # xs) =
     (if hashable x then add_all rt (set_add rt nodes x) xs else Inl TypeError)"

fun py_iter :: "'f json \<Rightarrow> error + 'f json list" where
  "py_iter (JArr xs) = Inr xs"
| "py_iter (JStr s) = Inr (map (\<lambda>c. JStr [c]) s)"
| "py_iter (JObj kvs) = Inr (map (\<lambda>kv. JStr (fst kv)) kvs)"
| "py_iter v = Inl TypeError"

definition set_update :: "'f runtime \<Rightarrow> 'f json list \<Rightarrow> 'f json \<Rightarrow> error + 'f json list" where
  "set_update rt nodes v = bindE (py_iter v) (add_all rt nodes)"

text \<open>
  \<^verbatim>\<open>for signal in new_message.signals:
    nodes.update(signal.receivers)\<close>
\<close>

fun update_receivers ::
  "'f runtime \<Rightarrow> 'f json list \<Rightarrow> 'f signal list \<Rightarrow> error + 'f json list" where
  "update_receivers rt nodes [] = Inr nodes"
| "update_receivers rt nodes (signal # rest) =
     bindE (set_update rt nodes (sig_receivers signal))
       (\<lambda>nodes'. update_receivers rt nodes' rest)"

text \<open>
  \<^verbatim>\<open>for message_name, message in messages_json.items():
    new_message = _load_message(message, message_name, bus, strict)
    nodes.update(new_message.senders)
    for signal in new_message.signals:
        nodes.update(signal.receivers)
    messages.append(new_message)\<close>
  The loop runs over every item of \<open>messages_json\<close>.
\<close>

fun load_messages ::
  "'f runtime \<Rightarrow> (string \<times> 'f json) list \<Rightarrow> 'f json \<Rightarrow> bool
     \<Rightarrow> 'f json list \<Rightarrow> 'f message list \<Rightarrow> error + 'f json list \<times> 'f message list" where
  "load_messages rt [] bus strict nodes messages = Inr (nodes, messages)"
| "load_messages rt ((message_name, message) # rest) bus strict nodes messages =
     bindE (load_message rt message message_name bus strict) (\<lambda>new_message.
     bindE (set_update rt nodes (msg_senders new_message)) (\<lambda>nodes1.
     bindE (update_receivers rt nodes1 (msg_signals new_message)) (\<lambda>nodes2.
     load_messages rt rest bus strict nodes2 (messages @ [new_message]))))"

text \<open>The message of the \<open>ValueError\<close> that \<open>load_string\<close> raises.\<close>

definition root_error :: string where
  \<open>root_error = ''Expected "messages" and "busMetadata" at root of the Odin JSON file''\<close>

text \<open>
  \<^verbatim>\<open>try:
    odin = json.loads(string)
    messages_json = odin['messages']
    bus_json = odin['busMetadata']
except KeyError:
    raise ValueError('Expected "messages" and "busMetadata" at root of the Odin JSON file')\<close>
  Only a \<open>KeyError\<close> is caught; any other exception of the three statements goes on to the
  caller.
\<close>

definition load_root :: "'f runtime \<Rightarrow> string \<Rightarrow> error + 'f json \<times> 'f json" where
  "load_root rt string =
     (case bindE (json_loads rt string) (\<lambda>odin.
           bindE (py_getitem odin ''messages'') (\<lambda>messages_json.
           bindE (py_getitem odin ''busMetadata'') (\<lambda>bus_json.
           Inr (messages_json, bus_json)))) of
        Inl KeyError \<Rightarrow> Inl (ValueError root_error)
      | Inl e \<Rightarrow> Inl e
      | Inr r \<Rightarrow> Inr r)"

text \<open>
  \<open>load_string(string, strict)\<close>. After the root is read:
  \<^verbatim>\<open>nodes = set([]); bus = None
if 'name' in messages_json: bus = messages_json['name']
messages = []
if bus: buses = [bus]
else: buses = []
for ... in messages_json.items(): ...
nodes = list(nodes)
return InternalDatabase(messages, [Node(name=node, comment=None) for node in nodes],
                        buses, "0")\<close>
  Only a dict has \<open>items\<close>.
\<close>

definition load_string :: "'f runtime \<Rightarrow> string \<Rightarrow> bool \<Rightarrow> error + 'f database" where
  "load_string rt string strict =
     bindE (load_root rt string) (\<lambda>(messages_json, bus_json).
     bindE (py_contains messages_json ''name'') (\<lambda>has_name.
     bindE (if has_name then py_getitem messages_json ''name'' else Inr JNull) (\<lambda>bus.
     let buses = (if truthy rt bus then [bus] else []) in
     (case messages_json of
        JObj items \<Rightarrow>
          bindE (load_messages rt items bus strict [] []) (\<lambda>(nodes, messages).
          Inr \<lparr> db_messages = messages,
                db_nodes = map (\<lambda>node. \<lparr> node_name = node, node_comment = None \<rparr>) nodes,
                db_buses = buses,
                db_version = ''0'' \<rparr>)
      | _ \<Rightarrow> Inl AttributeError))))"

subsection \<open>A runtime for the examples\<close>

text \<open>
  The examples below run the loader on small documents. Their runtime takes the rational
  numbers for the floats: \<open>float(n)\<close> of a small int is exact, \<open>int(x)\<close> cuts the
  fraction off, and a str converts to a number when it is a decimal numeral with an optional
  sign. The parser is a parameter: \<open>example_rt doc\<close> parses every text to \<open>doc\<close>.
\<close>

fun decimal :: "nat \<Rightarrow> string \<Rightarrow> nat option" where
  "decimal acc [] = Some acc"
| "decimal acc (c # cs) =
     (if (48::nat) \<le> of_char c \<and> (of_char c :: nat) \<le> 57
      then decimal (10 * acc + (of_char c - 48)) cs
      else None)"

definition numeral_of_str :: "string \<Rightarrow> int option" where
  "numeral_of_str s =
     (case s of
        [] \<Rightarrow> None
      | c # cs \<Rightarrow>
          if c = CHR ''-'' \<and> cs \<noteq> [] then map_option (\<lambda>n. - int n) (decimal 0 cs)
          else if c = CHR ''+'' \<and> cs \<noteq> [] then map_option int (decimal 0 cs)
          else map_option int (decimal 0 s))"

definition example_rt :: "rat json \<Rightarrow> rat runtime" where
  "example_rt doc =
     \<lparr> json_loads = (\<lambda>s. Inr doc),
       int_of_str = (\<lambda>s. case numeral_of_str s of
                             None \<Rightarrow> Inl (ValueError ''invalid literal for int()'')
                           | Some n \<Rightarrow> Inr n),
       float_of_str = (\<lambda>s. case numeral_of_str s of
                               None \<Rightarrow> Inl (ValueError ''could not convert string to float'')
                             | Some n \<Rightarrow> Inr (of_int n)),
       int_of_float = (\<lambda>x. Inr (if 0 \<le> x then \<lfloor>x\<rfloor> else \<lceil>x\<rceil>)),
       float_of_int = (\<lambda>n. Inr (of_int n)),
       float_eq_int = (\<lambda>x n. x = of_int n),
       float_eq = (\<lambda>x y. x = y) \<rparr>"

subsection \<open>Example documents\<close>



definition signal_no_labels :: "rat json" where
  "signal_no_labels =
     JObj [(''start_position'', JInt 0), (''value_description'', JObj [])]"

text \<open>
  A message without \<open>length_bytes\<close> whose two signals occupy the bits 0 to 7 and 16 to 23,
  and the same message with the two signals listed in the other order; a message with a multiplexer signal \<open>M\<close> and a signal \<open>S\<close> with \<open>mux_id = 2\<close>; and a
  message whose multiplexer signal has the empty name, with a signal whose \<open>mux_id\<close> is
  \<open>null\<close>.
\<close>

definition message_two_signals :: "rat json" where
  "message_two_signals =
     JObj [(''message_id'', JInt 1),
           (''signals'', JObj [(''a'', JObj [(''width'', JInt 8), (''start_position'', JInt 0)]),
                               (''b'', JObj [(''width'', JInt 8), (''start_position'', JInt 16)])])]"

definition message_signals_swapped :: "rat json" where
  "message_signals_swapped =
     JObj [(''message_id'', JInt 1),
           (''signals'', JObj [(''b'', JObj [(''width'', JInt 8), (''start_position'', JInt 16)]),
                               (''a'', JObj [(''width'', JInt 8), (''start_position'', JInt 0)])])]"

definition message_muxed :: "rat json" where
  "message_muxed =
     JObj [(''message_id'', JInt 2),
           (''signals'', JObj [(''M'', JObj [(''start_position'', JInt 0), (''is_muxer'', JBool True)]),
                               (''S'', JObj [(''start_position'', JInt 8), (''mux_id'', JInt 2)]),
                               (''P'', JObj [(''start_position'', JInt 16)])])]"

definition message_unnamed_muxer :: "rat json" where
  "message_unnamed_muxer =
     JObj [(''message_id'', JInt 3),
           (''signals'', JObj [('''', JObj [(''start_position'', JInt 0), (''is_muxer'', JBool True)]),
                               (''S'', JObj [(''start_position'', JInt 8), (''mux_id'', JInt 2)]),
                               (''T'', JObj [(''start_position'', JInt 16), (''mux_id'', JNull)])])]"

subsection \<open>The node set of the specification\<close>

text \<open>
  The node set in the words of the specification, read off the document and not off what
  the loader builds: the union, across the whole document, of every message's senders and
  every signal's receivers. \<open>spec_field\<close> is a field of a JSON object, or the default
  when the field is absent; the items of \<open>messages\<close> other than the bus name \<open>name\<close>
  are the messages. In the data model of the specification senders and receivers are
  sequences of node-name strings and the bus name is a string; \<open>doc_name_lists\<close> says
  that they are.
\<close>

fun is_name_list :: "'f json \<Rightarrow> bool" where
  "is_name_list (JArr xs) = list_all (\<lambda>x. case x of JStr s \<Rightarrow> True | _ \<Rightarrow> False) xs"
| "is_name_list v = False"

fun elements :: "'f json \<Rightarrow> 'f json set" where
  "elements (JArr xs) = set xs"
| "elements v = {}"

fun spec_field :: "'f json \<Rightarrow> string \<Rightarrow> 'f json \<Rightarrow> 'f json" where
  "spec_field (JObj kvs) key dflt = (case map_of kvs key of None \<Rightarrow> dflt | Some v \<Rightarrow> v)"
| "spec_field v key dflt = dflt"

fun items_of :: "'f json \<Rightarrow> (string \<times> 'f json) list" where
  "items_of (JObj kvs) = kvs"
| "items_of v = []"

definition spec_message_nodes :: "'f json \<Rightarrow> 'f json set" where
  "spec_message_nodes message =
     elements (spec_field message ''senders'' (JArr []))
     \<union> (\<Union>kv \<in> set (items_of (spec_field message ''signals'' (JObj []))).
          elements (spec_field (snd kv) ''receivers'' (JArr [])))"

definition spec_node_set :: "(string \<times> 'f json) list \<Rightarrow> 'f json set" where
  "spec_node_set items =
     (\<Union>kv \<in> set (filter (\<lambda>kv. fst kv \<noteq> ''name'') items). spec_message_nodes (snd kv))"

definition message_name_lists :: "'f json \<Rightarrow> bool" where
  "message_name_lists message =
     (is_name_list (spec_field message ''senders'' (JArr []))
      \<and> list_all (\<lambda>kv. is_name_list (spec_field (snd kv) ''receivers'' (JArr [])))
          (items_of (spec_field message ''signals'' (JObj []))))"

definition doc_name_lists :: "(string \<times> 'f json) list \<Rightarrow> bool" where
  "doc_name_lists items =
     list_all (\<lambda>kv. if fst kv = ''name''
                    then (case snd kv of JStr s \<Rightarrow> True | _ \<Rightarrow> False)
                    else message_name_lists (snd kv)) items"

text \<open>
  Two documents differ only in the order in which senders and receivers appear when they
  have the same messages and signals in the same places and every list of senders or
  receivers of one is a permutation of the list of the other (every element occurs
  equally often in both). The other fields are left open.
\<close>

definition permuted :: "'a list \<Rightarrow> 'a list \<Rightarrow> bool" where
  "permuted xs ys = list_all (\<lambda>x. count_list xs x = count_list ys x) (xs @ ys)"

fun reordered :: "'f json \<Rightarrow> 'f json \<Rightarrow> bool" where
  "reordered (JArr xs) (JArr ys) = permuted xs ys"
| "reordered a b = (a = b)"

definition message_reordered :: "'f json \<Rightarrow> 'f json \<Rightarrow> bool" where
  "message_reordered message message' =
     (reordered (spec_field message ''senders'' (JArr []))
                (spec_field message' ''senders'' (JArr []))
      \<and> list_all2 (\<lambda>kv kv'. reordered (spec_field (snd kv) ''receivers'' (JArr []))
                                     (spec_field (snd kv') ''receivers'' (JArr [])))
          (items_of (spec_field message ''signals'' (JObj [])))
          (items_of (spec_field message' ''signals'' (JObj []))))"

definition doc_reordered :: "(string \<times> 'f json) list \<Rightarrow> (string \<times> 'f json) list \<Rightarrow> bool" where
  "doc_reordered items items' =
     list_all2 (\<lambda>kv kv'. fst kv = fst kv'
                          \<and> (if fst kv = ''name'' then snd kv = snd kv'
                              else message_reordered (snd kv) (snd kv'))) items items'"

text \<open>
  Documents: one message with the senders A, B and a signal with the receivers B, C; two
  messages, the first as before and the second with the sender D and a signal with the
  receivers A, E, and the same two messages with the lists in another order
  (\<open>doc_of_messages\<close> makes the document of the items of \<open>messages\<close>); a document
  whose \<open>messages\<close> has the bus name \<open>BUS\<close> beside one message, one whose bus name is
  \<open>signals\<close>, and one whose bus name is the empty str; a document with a big-endian signal without \<open>start_position\<close>, and a
  little-endian signal record without it; documents without \<open>messages\<close> and without
  \<open>busMetadata\<close>.
\<close>

definition doc_nodes :: "rat json" where
  "doc_nodes =
     JObj [(''messages'',
            JObj [(''M1'', JObj [(''message_id'', JInt 1),
                                 (''senders'', JArr [JStr ''A'', JStr ''B'']),
                                 (''signals'',
                                  JObj [(''s'', JObj [(''start_position'', JInt 0),
                                                      (''width'', JInt 8),
                                                      (''receivers'', JArr [JStr ''B'', JStr ''C''])])])])]),
           (''busMetadata'', JObj [])]"

definition two_messages :: "(string \<times> rat json) list" where
  "two_messages =
     [(''M1'', JObj [(''message_id'', JInt 1),
                     (''senders'', JArr [JStr ''A'', JStr ''B'']),
                     (''signals'',
                      JObj [(''s'', JObj [(''start_position'', JInt 0),
                                          (''receivers'', JArr [JStr ''B'', JStr ''C''])])])]),
      (''M2'', JObj [(''message_id'', JInt 2),
                     (''senders'', JArr [JStr ''D'']),
                     (''signals'',
                      JObj [(''t'', JObj [(''start_position'', JInt 0),
                                          (''receivers'', JArr [JStr ''A'', JStr ''E''])])])])]"

definition two_messages_reordered :: "(string \<times> rat json) list" where
  "two_messages_reordered =
     [(''M1'', JObj [(''message_id'', JInt 1),
                     (''senders'', JArr [JStr ''B'', JStr ''A'']),
                     (''signals'',
                      JObj [(''s'', JObj [(''start_position'', JInt 0),
                                          (''receivers'', JArr [JStr ''C'', JStr ''B''])])])]),
      (''M2'', JObj [(''message_id'', JInt 2),
                     (''senders'', JArr [JStr ''D'']),
                     (''signals'',
                      JObj [(''t'', JObj [(''start_position'', JInt 0),
                                          (''receivers'', JArr [JStr ''E'', JStr ''A''])])])])]"

definition doc_of_messages :: "(string \<times> rat json) list \<Rightarrow> rat json" where
  "doc_of_messages items = JObj [(''messages'', JObj items), (''busMetadata'', JObj [])]"

definition doc_bus :: "rat json" where
  "doc_bus =
     JObj [(''messages'',
            JObj [(''name'', JStr ''BUS''),
                  (''M1'', JObj [(''message_id'', JInt 1), (''length_bytes'', JInt 8)])]),
           (''busMetadata'', JObj [])]"

definition doc_bus_signals :: "rat json" where
  "doc_bus_signals =
     JObj [(''messages'',
            JObj [(''name'', JStr ''signals''),
                  (''M1'', JObj [(''message_id'', JInt 1), (''length_bytes'', JInt 8)])]),
           (''busMetadata'', JObj [])]"

definition doc_empty_bus_name :: "rat json" where
  "doc_empty_bus_name =
     JObj [(''messages'',
            JObj [(''name'', JStr ''''),
                  (''M1'', JObj [(''message_id'', JInt 1), (''length_bytes'', JInt 8)])]),
           (''busMetadata'', JObj [])]"

definition doc_big_no_start :: "rat json" where
  "doc_big_no_start =
     JObj [(''messages'',
            JObj [(''M1'', JObj [(''message_id'', JInt 1), (''length_bytes'', JInt 1),
                                 (''signals'',
                                  JObj [(''s'', JObj [(''width'', JInt 8),
                                                      (''endianness'', JStr ''BIG'')])])])]),
           (''busMetadata'', JObj [])]"

definition signal_no_start :: "rat json" where
  "signal_no_start = JObj [(''width'', JInt 8)]"

definition doc_no_messages :: "rat json" where
  "doc_no_messages = JObj [(''busMetadata'', JObj [])]"

definition doc_no_bus_metadata :: "rat json" where
  "doc_no_bus_metadata = JObj [(''messages'', JObj [])]"

section \<open>Properties\<close>

subsection \<open>Sequencing\<close>

lemma bindE_Inl [simp]: "bindE (Inl e) f = Inl e"
  by (simp add: bindE_def)

lemma bindE_Inr [simp]: "bindE (Inr v) f = f v"
  by (simp add: bindE_def)

lemma bindE_eq_Inr: "bindE m f = Inr y \<longleftrightarrow> (\<exists>x. m = Inr x \<and> f x = Inr y)"
  by (cases m) simp_all

text \<open>The definitions that an evaluation of the loader on a document unfolds.\<close>

lemmas eval_defs = load_string_def load_root_def load_message_def parse_signals_def load_signal_def
          get_value_def int_or_none_def load_labels_def odin_start_bit_def example_rt_def
          find_multiplexer_def assign_multiplexer_def resolve_length_def start_bit_def
          has_multiplexer_ids_def set_update_def set_add_def dict_set_def

subsection \<open>The bit position normalizer\<close>

text \<open>
  C1. For every raw offset \<open>off\<close> (non-negative or not) the normalizer returns
  \<open>8 * (off div 8) + (7 - off mod 8)\<close> for the byte order \<open>big_endian\<close> and \<open>off\<close> itself for
  \<open>little_endian\<close>. At the offsets 0, 1, 7, 8, 9, 15 and 16 the big-endian results are
  7, 6, 0, 15, 14, 8 and 23, and the little-endian results are the offsets.
\<close>

theorem start_bit_normalizer:
  "odin_start_bit (Some off) ''big_endian'' = Inr (Some (8 * (off div 8) + (7 - off mod 8)))
   \<and> odin_start_bit (Some off) ''little_endian'' = Inr (Some off)
   \<and> map (\<lambda>n. odin_start_bit (Some n) ''big_endian'') [0, 1, 7, 8, 9, 15, 16]
       = map (\<lambda>n. Inr (Some n)) [7, 6, 0, 15, 14, 8, 23]
   \<and> map (\<lambda>n. odin_start_bit (Some n) ''little_endian'') [0, 1, 7, 8, 9, 15, 16]
       = map (\<lambda>n. Inr (Some n)) [0, 1, 7, 8, 9, 15, 16]"
  by (simp add: odin_start_bit_def)

subsection \<open>The signal builder\<close>

text \<open>What a signal that \<open>_load_signal\<close> returns says about the record it was built from.\<close>

lemma load_signal_InrD:
  assumes "load_signal rt sj nm = Inr s"
  shows "\<exists>width sp offset en vd mux_id mux is_muxer.
           get_value sj ''width'' (JInt 1) = Inr width \<and>
           py_int rt width = Inr (sig_length s) \<and>
           get_value sj ''start_position'' JNull = Inr sp \<and>
           int_or_none rt sp = Inr offset \<and>
           get_value sj ''endianness'' (JStr ''LITTLE'') = Inr en \<and>
           sig_byte_order s = (if en = JStr ''BIG'' then ''big_endian'' else ''little_endian'') \<and>
           odin_start_bit offset (sig_byte_order s) = Inr (sig_start s) \<and>
           get_value sj ''receivers'' (JArr []) = Inr (sig_receivers s) \<and>
           get_value sj ''value_description'' JNull = Inr vd \<and>
           load_labels rt vd = Inr (sig_choices s) \<and>
           get_value sj ''mux_id'' JNull = Inr mux_id \<and>
           int_or_none rt mux_id = Inr mux \<and>
           sig_multiplexer_ids s = (case mux of None \<Rightarrow> None | Some n \<Rightarrow> Some [n]) \<and>
           sig_is_multiplexed s = (mux \<noteq> None) \<and>
           get_value sj ''is_muxer'' JNull = Inr is_muxer \<and>
           sig_is_multiplexer s = (is_muxer \<noteq> JNull \<and> py_eq rt is_muxer (JBool True)) \<and>
           sig_multiplexer_signal s = None \<and>
           sig_name s = nm"
  using assms unfolding load_signal_def Let_def bindE_eq_Inr
  by (elim exE conjE) (simp; fastforce)






text \<open>
  C10. When a signal is built from a record whose \<open>value_description\<close> is present and is
  the empty dict, its \<open>choices\<close> is \<open>None\<close>, not an empty dict.
\<close>

theorem empty_value_description:
  assumes "load_signal rt sj nm = Inr s"
      and "get_value sj ''value_description'' JNull = Inr (JObj [])"
  shows "sig_choices s = None"
proof -
  from load_signal_InrD[OF assms(1)] assms(2)
  have "load_labels rt (JObj []) = Inr (sig_choices s)" by auto
  then show ?thesis by (simp add: load_labels_def)
qed

theorem empty_value_description_witness:
  "\<exists>s. load_signal (example_rt JNull) signal_no_labels ''S'' = Inr s
       \<and> get_value signal_no_labels ''value_description'' JNull = Inr (JObj [])
       \<and> sig_choices s = None"
proof -
  obtain s where s: "load_signal (example_rt JNull) signal_no_labels ''S'' = Inr s"
    by (simp add: load_signal_def signal_no_labels_def get_value_def int_or_none_def
          load_labels_def odin_start_bit_def example_rt_def)
  have g: "get_value signal_no_labels ''value_description'' JNull = Inr (JObj [])"
    by (simp add: signal_no_labels_def get_value_def)
  from empty_value_description[OF s g] s g show ?thesis by blast
qed

subsection \<open>The message builder\<close>

lemma last_filter_index:
  assumes "filter P xs \<noteq> []"
  shows "\<exists>i<length xs. last (filter P xs) = xs ! i \<and> P (xs ! i)
            \<and> (\<forall>j. i < j \<and> j < length xs \<longrightarrow> \<not> P (xs ! j))"
  using assms
proof (induction xs rule: rev_induct)
  case Nil
  then show ?case by simp
next
  case (snoc x xs)
  show ?case
  proof (cases "P x")
    case True
    have "last (filter P (xs @ [x])) = (xs @ [x]) ! length xs" using True by simp
    moreover have "P ((xs @ [x]) ! length xs)" using True by simp
    ultimately show ?thesis
      by (intro exI[of _ "length xs"]) auto
  next
    case False
    with snoc.prems have "filter P xs \<noteq> []" by simp
    from snoc.IH[OF this] obtain i where i: "i < length xs" "last (filter P xs) = xs ! i"
      "P (xs ! i)" "\<forall>j. i < j \<and> j < length xs \<longrightarrow> \<not> P (xs ! j)" by blast
    have "\<forall>j. i < j \<and> j < length (xs @ [x]) \<longrightarrow> \<not> P ((xs @ [x]) ! j)"
      using i(4) False by (auto simp: nth_append less_Suc_eq)
    with i False show ?thesis
      by (intro exI[of _ i]) (auto simp: nth_append)
  qed
qed

lemma last_filter_last: "xs \<noteq> [] \<Longrightarrow> P (last xs) \<Longrightarrow> last (filter P xs) = last xs"
  by (cases xs rule: rev_cases) auto

lemma last_sort_key:
  fixes f :: "'a \<Rightarrow> int"
  assumes "xs \<noteq> []"
  shows "\<exists>i<length xs. last (sort_key f xs) = xs ! i
            \<and> (\<forall>x\<in>set xs. f x \<le> f (xs ! i))
            \<and> (\<forall>j. i < j \<and> j < length xs \<longrightarrow> f (xs ! j) \<noteq> f (xs ! i))"
proof -
  let ?ys = "sort_key f xs"
  let ?M = "f (last ?ys)"
  have ne: "?ys \<noteq> []" using assms by (metis length_sort length_0_conv)
  have srt: "sorted (map f ?ys)" by simp
  have le: "\<forall>x\<in>set xs. f x \<le> ?M"
  proof
    fix x assume "x \<in> set xs"
    then have "x \<in> set ?ys" by simp
    then obtain k where k: "k < length ?ys" "?ys ! k = x" by (metis in_set_conv_nth)
    have "map f ?ys ! k \<le> map f ?ys ! (length ?ys - 1)"
      using srt k(1) by (intro sorted_nth_mono) auto
    then show "f x \<le> ?M" using k ne by (simp add: last_conv_nth)
  qed
  have "last (filter (\<lambda>y. f y = ?M) ?ys) = last ?ys"
    using ne by (intro last_filter_last) auto
  then have eq: "last ?ys = last (filter (\<lambda>y. f y = ?M) xs)"
    by (simp add: sort_key_stable)
  have "last ?ys \<in> set xs" using ne by (metis last_in_set set_sort)
  then have "filter (\<lambda>y. f y = ?M) xs \<noteq> []" by (auto simp: filter_empty_conv)
  from last_filter_index[OF this] obtain i where i: "i < length xs"
    "last (filter (\<lambda>y. f y = ?M) xs) = xs ! i" "f (xs ! i) = ?M"
    "\<forall>j. i < j \<and> j < length xs \<longrightarrow> f (xs ! j) \<noteq> ?M" by blast
  from i eq le show ?thesis
    by (intro exI[of _ i]) auto
qed

lemma ceil8: "(n + 7) div 8 = \<lceil>real_of_int n / 8\<rceil>" for n :: int
proof -
  have "\<lceil>real_of_int n / real_of_int 8\<rceil> = - (- n div 8)" by (rule ceiling_divide_eq_div)
  moreover have "- (- n div 8) = (n + 7) div 8" by presburger
  ultimately show ?thesis by simp
qed

lemma parse_items_InrD:
  "parse_items rt kvs = Inr sigs \<Longrightarrow>
     list_all2 (\<lambda>kv s. load_signal rt (snd kv) (fst kv) = Inr s) kvs sigs"
proof (induction kvs arbitrary: sigs)
  case Nil
  then show ?case by simp
next
  case (Cons a kvs)
  obtain nm sj where a: "a = (nm, sj)" by (cases a)
  from Cons.prems a obtain s rest where
    "load_signal rt sj nm = Inr s" "parse_items rt kvs = Inr rest" "sigs = s # rest"
    by (auto simp: bindE_eq_Inr)
  with Cons.IH[of rest] a show ?case by simp
qed

lemma load_message_InrD:
  assumes "load_message rt message name bus strict = Inr m"
  shows "\<exists>mid raw sj parsed.
           get_value message ''message_id'' (JInt 0) = Inr mid \<and>
           py_int rt mid = Inr (msg_frame_id m) \<and>
           get_value message ''length_bytes'' (JStr ''auto'') = Inr raw \<and>
           get_value message ''senders'' (JArr []) = Inr (msg_senders m) \<and>
           get_value message ''signals'' (JObj []) = Inr sj \<and>
           parse_signals rt sj = Inr parsed \<and>
           msg_signals m = assign_multiplexer (find_multiplexer parsed) parsed \<and>
           resolve_length rt raw (msg_signals m) = Inr (msg_length m) \<and>
           msg_name m = name \<and> msg_bus_name m = bus \<and> msg_strict m = strict"
  using assms unfolding load_message_def Let_def bindE_eq_Inr
  by (elim exE conjE) (simp; fastforce)

lemma parse_signals_InrD:
  assumes "parse_signals rt sj = Inr sigs"
  shows "\<exists>kvs. sj = JObj kvs \<and> parse_items rt kvs = Inr sigs"
  using assms by (cases sj) (simp_all add: parse_signals_def)

lemma find_multiplexer_eq:
  "find_multiplexer sigs =
     (if filter sig_is_multiplexer sigs = [] then None
      else Some (sig_name (last (filter sig_is_multiplexer sigs))))"
  unfolding find_multiplexer_def
  by (induction sigs rule: rev_induct) simp_all

lemma assign_multiplexer_map:
  "assign_multiplexer mx sigs =
     map (\<lambda>s. if (\<exists>m. mx = Some m \<and> m \<noteq> []) \<and> has_multiplexer_ids s
              then s\<lparr>sig_multiplexer_signal := mx\<rparr> else s) sigs"
  by (cases mx) (simp_all add: assign_multiplexer_def)

lemma parsed_signals:
  assumes "parse_items rt kvs = Inr sigs" and "s \<in> set sigs"
  shows "\<exists>nm sj. (nm, sj) \<in> set kvs \<and> load_signal rt sj nm = Inr s"
proof -
  from assms(2) obtain i where i: "i < length sigs" "sigs ! i = s"
    by (metis in_set_conv_nth)
  note L = parse_items_InrD[OF assms(1)]
  from L have len: "length kvs = length sigs" by (rule list_all2_lengthD)
  from L i(1) have "load_signal rt (snd (kvs ! i)) (fst (kvs ! i)) = Inr (sigs ! i)"
    by (rule list_all2_nthD2)
  moreover have "kvs ! i \<in> set kvs" using i(1) len by simp
  ultimately show ?thesis using i(2) by (metis prod.collapse)
qed

lemma resolve_length_auto:
  assumes "resolve_length rt (JStr ''auto'') sigs = Inr n" and "sigs \<noteq> []"
  shows "\<exists>i st. i < length sigs \<and> start_bit (sigs ! i) = Some st
           \<and> (\<forall>s\<in>set sigs. \<exists>st'. start_bit s = Some st' \<and> st' \<le> st)
           \<and> (\<forall>j. i < j \<and> j < length sigs \<longrightarrow> start_bit (sigs ! j) \<noteq> Some st)
           \<and> n = (st + sig_length (sigs ! i) + 7) div 8"
proof -
  let ?f = "\<lambda>s. the (start_bit s)"
  from assms have some: "None \<notin> set (map start_bit sigs)"
    by (auto simp: resolve_length_def split: if_splits)
  then have all: "\<forall>s\<in>set sigs. \<exists>st'. start_bit s = Some st'"
    by (auto simp: image_iff) (metis not_Some_eq)
  from assms some
  have n: "n = (?f (last (sort_key ?f sigs)) + sig_length (last (sort_key ?f sigs)) + 7) div 8"
    by (auto simp: resolve_length_def Let_def split: if_splits)
  from last_sort_key[OF assms(2), of ?f] obtain i where i: "i < length sigs"
    "last (sort_key ?f sigs) = sigs ! i" "\<forall>x\<in>set sigs. ?f x \<le> ?f (sigs ! i)"
    "\<forall>j. i < j \<and> j < length sigs \<longrightarrow> ?f (sigs ! j) \<noteq> ?f (sigs ! i)" by blast
  from all i(1) obtain st where st: "start_bit (sigs ! i) = Some st" by (meson nth_mem)
  have A: "\<forall>s\<in>set sigs. \<exists>st'. start_bit s = Some st' \<and> st' \<le> st"
  proof
    fix s assume s: "s \<in> set sigs"
    with all obtain st' where "start_bit s = Some st'" by blast
    moreover from i(3) s have "?f s \<le> ?f (sigs ! i)" by blast
    ultimately show "\<exists>st'. start_bit s = Some st' \<and> st' \<le> st" using st by simp
  qed
  have B: "\<forall>j. i < j \<and> j < length sigs \<longrightarrow> start_bit (sigs ! j) \<noteq> Some st"
    using i(4) st by auto
  from n i(2) st have C: "n = (st + sig_length (sigs ! i) + 7) div 8" by simp
  from i(1) st A B C show ?thesis by blast
qed

text \<open>
  The length of a message that \<open>_load_message\<close> has built, read off the built message.
\<close>

lemma length_of_built_message:
  assumes "load_message rt message name bus strict = Inr m"
      and "get_value message ''length_bytes'' (JStr ''auto'') = Inr raw"
  shows "(raw = JStr ''auto'' \<and> msg_signals m \<noteq> [] \<longrightarrow>
            (\<exists>i st. i < length (msg_signals m)
               \<and> start_bit (msg_signals m ! i) = Some st
               \<and> (\<forall>s\<in>set (msg_signals m). \<exists>st'. start_bit s = Some st' \<and> st' \<le> st)
               \<and> (\<forall>j. i < j \<and> j < length (msg_signals m) \<longrightarrow> start_bit (msg_signals m ! j) \<noteq> Some st)
               \<and> msg_length m = \<lceil>real_of_int (st + sig_length (msg_signals m ! i)) / 8\<rceil>))
       \<and> (raw = JStr ''auto'' \<and> msg_signals m = [] \<longrightarrow> msg_length m = 0)
       \<and> (raw \<noteq> JStr ''auto'' \<longrightarrow> py_int rt raw = Inr (msg_length m))
       \<and> (\<forall>n. raw = JInt n \<longrightarrow> msg_length m = n)"
proof -
  from load_message_InrD[OF assms(1)] assms(2)
  have len: "resolve_length rt raw (msg_signals m) = Inr (msg_length m)" by auto
  have 1: "raw = JStr ''auto'' \<and> msg_signals m \<noteq> [] \<longrightarrow>
            (\<exists>i st. i < length (msg_signals m)
               \<and> start_bit (msg_signals m ! i) = Some st
               \<and> (\<forall>s\<in>set (msg_signals m). \<exists>st'. start_bit s = Some st' \<and> st' \<le> st)
               \<and> (\<forall>j. i < j \<and> j < length (msg_signals m) \<longrightarrow> start_bit (msg_signals m ! j) \<noteq> Some st)
               \<and> msg_length m = \<lceil>real_of_int (st + sig_length (msg_signals m ! i)) / 8\<rceil>)"
  proof
    assume a: "raw = JStr ''auto'' \<and> msg_signals m \<noteq> []"
    with len have "resolve_length rt (JStr ''auto'') (msg_signals m) = Inr (msg_length m)" by simp
    from resolve_length_auto[OF this] a obtain i st where
      "i < length (msg_signals m)" "start_bit (msg_signals m ! i) = Some st"
      "\<forall>s\<in>set (msg_signals m). \<exists>st'. start_bit s = Some st' \<and> st' \<le> st"
      "\<forall>j. i < j \<and> j < length (msg_signals m) \<longrightarrow> start_bit (msg_signals m ! j) \<noteq> Some st"
      "msg_length m = (st + sig_length (msg_signals m ! i) + 7) div 8" by blast
    then show "\<exists>i st. i < length (msg_signals m)
               \<and> start_bit (msg_signals m ! i) = Some st
               \<and> (\<forall>s\<in>set (msg_signals m). \<exists>st'. start_bit s = Some st' \<and> st' \<le> st)
               \<and> (\<forall>j. i < j \<and> j < length (msg_signals m) \<longrightarrow> start_bit (msg_signals m ! j) \<noteq> Some st)
               \<and> msg_length m = \<lceil>real_of_int (st + sig_length (msg_signals m ! i)) / 8\<rceil>"
      unfolding ceil8[symmetric] by blast
  qed
  have 2: "raw = JStr ''auto'' \<and> msg_signals m = [] \<longrightarrow> msg_length m = 0"
    using len by (auto simp: resolve_length_def)
  have 3: "raw \<noteq> JStr ''auto'' \<longrightarrow> py_int rt raw = Inr (msg_length m)"
    using len by (auto simp: resolve_length_def)
  have 4: "\<forall>n. raw = JInt n \<longrightarrow> msg_length m = n"
    using len by (auto simp: resolve_length_def)
  from 1 2 3 4 show ?thesis by blast
qed

text \<open>
  What \<open>_load_message\<close> computes once the fields before the length are read: the
  signals load one by one, and the message is built as soon as the length resolves.
\<close>

lemma parse_items_InrI:
  "list_all2 (\<lambda>kv s. load_signal rt (snd kv) (fst kv) = Inr s) kvs sigs \<Longrightarrow>
     parse_items rt kvs = Inr sigs"
proof (induction rule: list_all2_induct)
  case Nil
  then show ?case by simp
next
  case (Cons kv kvs s sigs)
  then show ?case by (cases kv) simp
qed

lemma assign_multiplexer_keeps:
  "map start_bit (assign_multiplexer mx sigs) = map start_bit sigs"
  "map sig_length (assign_multiplexer mx sigs) = map sig_length sigs"
  "map sig_name (assign_multiplexer mx sigs) = map sig_name sigs"
  "map sig_receivers (assign_multiplexer mx sigs) = map sig_receivers sigs"
  by (simp_all add: assign_multiplexer_map start_bit_def)

lemma load_message_eq:
  assumes "get_value message ''message_id'' (JInt 0) = Inr mid" and "py_int rt mid = Inr frame_id"
      and "get_value message ''length_bytes'' (JStr ''auto'') = Inr raw"
      and "get_value message ''cycle_time'' JNull = Inr ct" and "int_or_none rt ct = Inr cycle_time"
      and "get_value message ''senders'' (JArr []) = Inr senders"
      and "get_value message ''send_type'' JNull = Inr send_type"
      and "get_value message ''signals'' (JObj []) = Inr (JObj sigs)"
      and "list_all2 (\<lambda>kv s. load_signal rt (snd kv) (fst kv) = Inr s) sigs parsed"
  shows "load_message rt message name bus strict =
           bindE (resolve_length rt raw (assign_multiplexer (find_multiplexer parsed) parsed))
             (\<lambda>n. Inr \<lparr> msg_frame_id = frame_id,
                         msg_is_extended_frame = False,
                         msg_name = name,
                         msg_length = n,
                         msg_senders = senders,
                         msg_send_type = send_type,
                         msg_cycle_time = cycle_time,
                         msg_signals = assign_multiplexer (find_multiplexer parsed) parsed,
                         msg_comment = None,
                         msg_bus_name = bus,
                         msg_strict = strict \<rparr>)"
  using assms parse_items_InrI[OF assms(9)]
  by (simp add: load_message_def parse_signals_def Let_def)

lemma resolve_length_returns:
  assumes "sigs \<noteq> []" and "None \<notin> set (map start_bit sigs)"
  shows "\<exists>n. resolve_length rt (JStr ''auto'') sigs = Inr n"
  using assms by (simp add: resolve_length_def Let_def)

lemma resolve_length_none:
  assumes "None \<in> set (map start_bit sigs)"
  shows "resolve_length rt (JStr ''auto'') sigs = Inl TypeError"
  using assms by (auto simp: resolve_length_def)

text \<open>
  C3. For a message dict whose fields other than the length are read and converted without
  error and whose signal records load to the signals \<open>parsed\<close>: when the raw
  \<open>length_bytes\<close> is \<open>auto\<close> (also when the field is absent), there are signals and each
  has a start bit, \<open>_load_message\<close> returns a message with these signals in the order
  of the document, and its length is \<open>ceil((st + l) / 8)\<close> where \<open>st\<close> is the greatest
  start bit among the signals and \<open>l\<close> is the bit length of the signal that has it (the
  last such signal in the order of the document, when several start there), wherever
  that signal stands in the list; a signal whose start is \<open>None\<close> makes the branch raise
  a \<open>TypeError\<close>; with no signal the message is returned with the length 0; a raw
  \<open>length_bytes\<close> other than \<open>auto\<close> is converted by \<open>int\<close>: the message has the length
  that \<open>int\<close> returns, an integer is taken as it is, and an error of \<open>int\<close> is the error
  of \<open>_load_message\<close>. The start bit of a signal is the value of the sort key
  \<open>start_bit\<close>: the canonical start bit that the signal holds.
\<close>

theorem inferred_length:
  assumes "get_value message ''message_id'' (JInt 0) = Inr mid" and "py_int rt mid = Inr frame_id"
      and "get_value message ''length_bytes'' (JStr ''auto'') = Inr raw"
      and "get_value message ''cycle_time'' JNull = Inr ct" and "int_or_none rt ct = Inr cycle_time"
      and "get_value message ''senders'' (JArr []) = Inr senders"
      and "get_value message ''send_type'' JNull = Inr send_type"
      and "get_value message ''signals'' (JObj []) = Inr (JObj sigs)"
      and "list_all2 (\<lambda>kv s. load_signal rt (snd kv) (fst kv) = Inr s) sigs parsed"
  shows "(raw = JStr ''auto'' \<and> parsed \<noteq> [] \<and> None \<notin> set (map start_bit parsed) \<longrightarrow>
           (\<exists>m i st. load_message rt message name bus strict = Inr m
              \<and> map sig_name (msg_signals m) = map fst sigs
              \<and> map start_bit (msg_signals m) = map start_bit parsed
              \<and> map sig_length (msg_signals m) = map sig_length parsed
              \<and> i < length parsed \<and> start_bit (parsed ! i) = Some st
              \<and> (\<forall>s\<in>set parsed. \<exists>st'. start_bit s = Some st' \<and> st' \<le> st)
              \<and> (\<forall>j. i < j \<and> j < length parsed \<longrightarrow> start_bit (parsed ! j) \<noteq> Some st)
              \<and> msg_length m = \<lceil>real_of_int (st + sig_length (parsed ! i)) / 8\<rceil>))
       \<and> (raw = JStr ''auto'' \<and> None \<in> set (map start_bit parsed) \<longrightarrow>
            load_message rt message name bus strict = Inl TypeError)
       \<and> (raw = JStr ''auto'' \<and> parsed = [] \<longrightarrow>
            (\<exists>m. load_message rt message name bus strict = Inr m
               \<and> msg_signals m = [] \<and> msg_length m = 0))
       \<and> (raw \<noteq> JStr ''auto'' \<longrightarrow>
            (\<forall>n. py_int rt raw = Inr n \<longrightarrow>
               (\<exists>m. load_message rt message name bus strict = Inr m \<and> msg_length m = n))
          \<and> (\<forall>e. py_int rt raw = Inl e \<longrightarrow> load_message rt message name bus strict = Inl e))
       \<and> (\<forall>n. raw = JInt n \<longrightarrow>
            (\<exists>m. load_message rt message name bus strict = Inr m \<and> msg_length m = n))"
proof -
  let ?signals = "assign_multiplexer (find_multiplexer parsed) parsed"
  note eq = load_message_eq[OF assms, of name bus strict]
  have keep: "map start_bit ?signals = map start_bit parsed"
             "map sig_length ?signals = map sig_length parsed"
             "map sig_name ?signals = map sig_name parsed"
    by (rule assign_multiplexer_keeps)+
  have names: "map sig_name parsed = map fst sigs"
    using assms(9)
    by (induction rule: list_all2_induct) (auto dest: load_signal_InrD)
  have len: "length ?signals = length parsed" using keep(1) by (metis length_map)
  have 1: "raw = JStr ''auto'' \<and> parsed \<noteq> [] \<and> None \<notin> set (map start_bit parsed) \<longrightarrow>
           (\<exists>m i st. load_message rt message name bus strict = Inr m
              \<and> map sig_name (msg_signals m) = map fst sigs
              \<and> map start_bit (msg_signals m) = map start_bit parsed
              \<and> map sig_length (msg_signals m) = map sig_length parsed
              \<and> i < length parsed \<and> start_bit (parsed ! i) = Some st
              \<and> (\<forall>s\<in>set parsed. \<exists>st'. start_bit s = Some st' \<and> st' \<le> st)
              \<and> (\<forall>j. i < j \<and> j < length parsed \<longrightarrow> start_bit (parsed ! j) \<noteq> Some st)
              \<and> msg_length m = \<lceil>real_of_int (st + sig_length (parsed ! i)) / 8\<rceil>)"
  proof
    assume a: "raw = JStr ''auto'' \<and> parsed \<noteq> [] \<and> None \<notin> set (map start_bit parsed)"
    then have ne: "?signals \<noteq> []" using len by auto
    from a keep(1) have some: "None \<notin> set (map start_bit ?signals)" by simp
    from resolve_length_returns[OF ne some, of rt] obtain n where
      n: "resolve_length rt (JStr ''auto'') ?signals = Inr n" by blast
    from resolve_length_auto[OF n ne] obtain i st where
      i: "i < length ?signals" "start_bit (?signals ! i) = Some st"
         "\<forall>s\<in>set ?signals. \<exists>st'. start_bit s = Some st' \<and> st' \<le> st"
         "\<forall>j. i < j \<and> j < length ?signals \<longrightarrow> start_bit (?signals ! j) \<noteq> Some st"
         "n = (st + sig_length (?signals ! i) + 7) div 8" by blast
    have nth_sb: "\<And>j. j < length parsed \<Longrightarrow> start_bit (?signals ! j) = start_bit (parsed ! j)"
      using keep(1) len by (metis nth_map)
    have nth_len: "\<And>j. j < length parsed \<Longrightarrow> sig_length (?signals ! j) = sig_length (parsed ! j)"
      using keep(2) len by (metis nth_map)
    have all: "\<forall>s\<in>set parsed. \<exists>st'. start_bit s = Some st' \<and> st' \<le> st"
    proof
      fix s assume "s \<in> set parsed"
      then obtain j where j: "j < length parsed" "parsed ! j = s" by (metis in_set_conv_nth)
      then have "?signals ! j \<in> set ?signals" using len by simp
      with i(3) obtain st' where "start_bit (?signals ! j) = Some st'" "st' \<le> st" by blast
      with nth_sb[OF j(1)] j(2) show "\<exists>st'. start_bit s = Some st' \<and> st' \<le> st" by metis
    qed
    let ?m = "\<lparr> msg_frame_id = frame_id, msg_is_extended_frame = False, msg_name = name,
                msg_length = n, msg_senders = senders, msg_send_type = send_type,
                msg_cycle_time = cycle_time, msg_signals = ?signals, msg_comment = None,
                msg_bus_name = bus, msg_strict = strict \<rparr>"
    have m: "load_message rt message name bus strict = Inr ?m"
      using eq n a by simp
    have "msg_length ?m = \<lceil>real_of_int (st + sig_length (parsed ! i)) / 8\<rceil>"
      using i(1,5) nth_len len by (simp add: ceil8)
    moreover have "i < length parsed" "start_bit (parsed ! i) = Some st"
      using i(1,2) len nth_sb by simp_all
    moreover have "\<forall>j. i < j \<and> j < length parsed \<longrightarrow> start_bit (parsed ! j) \<noteq> Some st"
      using i(4) len nth_sb by simp
    moreover have "map sig_name (msg_signals ?m) = map fst sigs"
      "map start_bit (msg_signals ?m) = map start_bit parsed"
      "map sig_length (msg_signals ?m) = map sig_length parsed"
      using keep names by simp_all
    ultimately show "\<exists>m i st. load_message rt message name bus strict = Inr m
              \<and> map sig_name (msg_signals m) = map fst sigs
              \<and> map start_bit (msg_signals m) = map start_bit parsed
              \<and> map sig_length (msg_signals m) = map sig_length parsed
              \<and> i < length parsed \<and> start_bit (parsed ! i) = Some st
              \<and> (\<forall>s\<in>set parsed. \<exists>st'. start_bit s = Some st' \<and> st' \<le> st)
              \<and> (\<forall>j. i < j \<and> j < length parsed \<longrightarrow> start_bit (parsed ! j) \<noteq> Some st)
              \<and> msg_length m = \<lceil>real_of_int (st + sig_length (parsed ! i)) / 8\<rceil>"
      using m all by (intro exI[of _ ?m] exI[of _ i] exI[of _ st] conjI)
  qed
  have 2: "raw = JStr ''auto'' \<and> None \<in> set (map start_bit parsed) \<longrightarrow>
            load_message rt message name bus strict = Inl TypeError"
  proof
    assume a: "raw = JStr ''auto'' \<and> None \<in> set (map start_bit parsed)"
    with keep(1) have "None \<in> set (map start_bit ?signals)" by simp
    from resolve_length_none[OF this, of rt] eq a show
      "load_message rt message name bus strict = Inl TypeError" by simp
  qed
  have 3: "raw = JStr ''auto'' \<and> parsed = [] \<longrightarrow>
            (\<exists>m. load_message rt message name bus strict = Inr m
               \<and> msg_signals m = [] \<and> msg_length m = 0)"
    using eq by (auto simp: resolve_length_def assign_multiplexer_map)
  have 4: "raw \<noteq> JStr ''auto'' \<longrightarrow>
            (\<forall>n. py_int rt raw = Inr n \<longrightarrow>
               (\<exists>m. load_message rt message name bus strict = Inr m \<and> msg_length m = n))
          \<and> (\<forall>e. py_int rt raw = Inl e \<longrightarrow> load_message rt message name bus strict = Inl e)"
    using eq by (auto simp: resolve_length_def)
  have 5: "\<forall>n. raw = JInt n \<longrightarrow>
            (\<exists>m. load_message rt message name bus strict = Inr m \<and> msg_length m = n)"
    using eq by (auto simp: resolve_length_def)
  from 1 2 3 4 5 show ?thesis by (intro conjI)
qed

theorem inferred_length_witness:
  "(\<exists>m. load_message (example_rt JNull) message_signals_swapped ''M'' JNull True = Inr m
       \<and> map sig_name (msg_signals m) = [''b'', ''a'']
       \<and> map start_bit (msg_signals m) = [Some 16, Some 0]
       \<and> map sig_length (msg_signals m) = [8, 8]
       \<and> msg_length m = \<lceil>real_of_int (16 + 8) / 8\<rceil>
       \<and> msg_length m = 3)
   \<and> map_sum id msg_length (load_message (example_rt JNull) message_two_signals ''M'' JNull True)
       = Inr 3
   \<and> (\<exists>m. load_message (example_rt JNull) (JObj []) ''E'' JNull True = Inr m
          \<and> msg_signals m = [] \<and> msg_length m = 0)
   \<and> (\<exists>m. load_message (example_rt JNull) (JObj [(''length_bytes'', JInt 8)]) ''F'' JNull True
            = Inr m
          \<and> msg_length m = 8)
   \<and> load_message (example_rt JNull) (JObj [(''length_bytes'', JStr ''x'')]) ''G'' JNull True
       = Inl (ValueError ''invalid literal for int()'')
   \<and> load_message (example_rt JNull) (JObj [(''signals'', JObj [(''s'', signal_no_start)])])
        ''N'' JNull True
       = Inl TypeError"
proof -
  let ?rt = "example_rt JNull :: rat runtime"
  let ?b = "JObj [(''width'', JInt 8), (''start_position'', JInt 16)] :: rat json"
  let ?a = "JObj [(''width'', JInt 8), (''start_position'', JInt 0)] :: rat json"
  let ?sigs = "[(''b'', ?b), (''a'', ?a)]"
  have "map_sum id (\<lambda>s. (sig_start s, sig_length s)) (load_signal ?rt ?b ''b'') = Inr (Some 16, 8)"
    by (simp add: eval_defs)
  then obtain sb where sb: "load_signal ?rt ?b ''b'' = Inr sb" "sig_start sb = Some 16"
      "sig_length sb = 8"
    by (cases "load_signal ?rt ?b ''b''") auto
  have "map_sum id (\<lambda>s. (sig_start s, sig_length s)) (load_signal ?rt ?a ''a'') = Inr (Some 0, 8)"
    by (simp add: eval_defs)
  then obtain sa where sa: "load_signal ?rt ?a ''a'' = Inr sa" "sig_start sa = Some 0"
      "sig_length sa = 8"
    by (cases "load_signal ?rt ?a ''a''") auto
  let ?parsed = "[sb, sa]"
  have h1: "get_value message_signals_swapped ''message_id'' (JInt 0) = Inr (JInt 1)"
    and h3: "get_value message_signals_swapped ''length_bytes'' (JStr ''auto'') = Inr (JStr ''auto'')"
    and h4: "get_value message_signals_swapped ''cycle_time'' JNull = Inr JNull"
    and h6: "get_value message_signals_swapped ''senders'' (JArr []) = Inr (JArr [])"
    and h7: "get_value message_signals_swapped ''send_type'' JNull = Inr JNull"
    and h8: "get_value message_signals_swapped ''signals'' (JObj []) = Inr (JObj ?sigs)"
    by (simp_all add: get_value_def message_signals_swapped_def)
  have h2: "py_int ?rt (JInt 1) = Inr 1" by simp
  have h5: "int_or_none ?rt JNull = Inr None" by (simp add: int_or_none_def)
  have h9: "list_all2 (\<lambda>kv s. load_signal ?rt (snd kv) (fst kv) = Inr s) ?sigs ?parsed"
    using sb(1) sa(1) by simp
  have pre: "JStr ''auto'' = (JStr ''auto'' :: rat json) \<and> ?parsed \<noteq> []
             \<and> None \<notin> set (map start_bit ?parsed)"
    using sb(2) sa(2) by (simp add: start_bit_def)
  from inferred_length[OF h1 h2 h3 h4 h5 h6 h7 h8 h9, of "''M''" JNull True] pre
  obtain m i st where
    m: "load_message ?rt message_signals_swapped ''M'' JNull True = Inr m"
       "map sig_name (msg_signals m) = map fst ?sigs"
       "map start_bit (msg_signals m) = map start_bit ?parsed"
       "map sig_length (msg_signals m) = map sig_length ?parsed"
    and i: "i < length ?parsed" "start_bit (?parsed ! i) = Some st"
       "\<forall>s\<in>set ?parsed. \<exists>st'. start_bit s = Some st' \<and> st' \<le> st"
       "msg_length m = \<lceil>real_of_int (st + sig_length (?parsed ! i)) / 8\<rceil>"
    by blast
  from i(3) sb(2) have "16 \<le> st" by (simp add: start_bit_def)
  with i(1,2) sb(2) sa(2) have "i = 0" "st = 16"
    by (auto simp: start_bit_def less_Suc_eq)
  with i(4) sb(3) have l: "msg_length m = \<lceil>real_of_int (16 + 8) / 8\<rceil>" by simp
  then have l3: "msg_length m = 3" by simp
  have 1: "\<exists>m. load_message ?rt message_signals_swapped ''M'' JNull True = Inr m
       \<and> map sig_name (msg_signals m) = [''b'', ''a'']
       \<and> map start_bit (msg_signals m) = [Some 16, Some 0]
       \<and> map sig_length (msg_signals m) = [8, 8]
       \<and> msg_length m = \<lceil>real_of_int (16 + 8) / 8\<rceil>
       \<and> msg_length m = 3"
    using m l l3 sb(2,3) sa(2,3) by (intro exI[of _ m]) (simp add: start_bit_def)
  have 2: "map_sum id msg_length (load_message ?rt message_two_signals ''M'' JNull True) = Inr 3"
    by (simp add: eval_defs message_two_signals_def)
  have z: "py_int ?rt (JInt 0) = Inr 0" by simp
  have none: "list_all2 (\<lambda>kv s. load_signal ?rt (snd kv) (fst kv) = Inr s) [] []" by simp
  let ?e = "JObj [] :: rat json"
  have e1: "get_value ?e ''message_id'' (JInt 0) = Inr (JInt 0)"
    and e3: "get_value ?e ''length_bytes'' (JStr ''auto'') = Inr (JStr ''auto'')"
    and e4: "get_value ?e ''cycle_time'' JNull = Inr JNull"
    and e6: "get_value ?e ''senders'' (JArr []) = Inr (JArr [])"
    and e7: "get_value ?e ''send_type'' JNull = Inr JNull"
    and e8: "get_value ?e ''signals'' (JObj []) = Inr (JObj [])"
    by (simp_all add: get_value_def)
  from inferred_length[OF e1 z e3 e4 h5 e6 e7 e8 none, of "''E''" JNull True]
  have 3: "\<exists>m. load_message ?rt ?e ''E'' JNull True = Inr m
          \<and> msg_signals m = [] \<and> msg_length m = 0" by simp
  let ?f = "JObj [(''length_bytes'', JInt 8)] :: rat json"
  have f1: "get_value ?f ''message_id'' (JInt 0) = Inr (JInt 0)"
    and f3: "get_value ?f ''length_bytes'' (JStr ''auto'') = Inr (JInt 8)"
    and f4: "get_value ?f ''cycle_time'' JNull = Inr JNull"
    and f6: "get_value ?f ''senders'' (JArr []) = Inr (JArr [])"
    and f7: "get_value ?f ''send_type'' JNull = Inr JNull"
    and f8: "get_value ?f ''signals'' (JObj []) = Inr (JObj [])"
    by (simp_all add: get_value_def)
  from inferred_length[OF f1 z f3 f4 h5 f6 f7 f8 none, of "''F''" JNull True]
  have 4: "\<exists>m. load_message ?rt ?f ''F'' JNull True = Inr m \<and> msg_length m = 8" by simp
  let ?g = "JObj [(''length_bytes'', JStr ''x'')] :: rat json"
  have g1: "get_value ?g ''message_id'' (JInt 0) = Inr (JInt 0)"
    and g3: "get_value ?g ''length_bytes'' (JStr ''auto'') = Inr (JStr ''x'')"
    and g4: "get_value ?g ''cycle_time'' JNull = Inr JNull"
    and g6: "get_value ?g ''senders'' (JArr []) = Inr (JArr [])"
    and g7: "get_value ?g ''send_type'' JNull = Inr JNull"
    and g8: "get_value ?g ''signals'' (JObj []) = Inr (JObj [])"
    by (simp_all add: get_value_def)
  have gx: "py_int ?rt (JStr ''x'') = Inl (ValueError ''invalid literal for int()'')"
    by (simp add: example_rt_def numeral_of_str_def)
  from inferred_length[OF g1 z g3 g4 h5 g6 g7 g8 none, of "''G''" JNull True] gx
  have 5: "load_message ?rt ?g ''G'' JNull True = Inl (ValueError ''invalid literal for int()'')"
    by simp
  let ?n = "JObj [(''signals'', JObj [(''s'', signal_no_start)])] :: rat json"
  have "map_sum id sig_start (load_signal ?rt signal_no_start ''s'') = Inr None"
    by (simp add: eval_defs signal_no_start_def)
  then obtain sn where sn: "load_signal ?rt signal_no_start ''s'' = Inr sn" "sig_start sn = None"
    by (cases "load_signal ?rt signal_no_start ''s''") auto
  have n1: "get_value ?n ''message_id'' (JInt 0) = Inr (JInt 0)"
    and n3: "get_value ?n ''length_bytes'' (JStr ''auto'') = Inr (JStr ''auto'')"
    and n4: "get_value ?n ''cycle_time'' JNull = Inr JNull"
    and n6: "get_value ?n ''senders'' (JArr []) = Inr (JArr [])"
    and n7: "get_value ?n ''send_type'' JNull = Inr JNull"
    and n8: "get_value ?n ''signals'' (JObj []) = Inr (JObj [(''s'', signal_no_start)])"
    by (simp_all add: get_value_def)
  have n9: "list_all2 (\<lambda>kv s. load_signal ?rt (snd kv) (fst kv) = Inr s)
              [(''s'', signal_no_start)] [sn]"
    using sn(1) by simp
  from inferred_length[OF n1 z n3 n4 h5 n6 n7 n8 n9, of "''N''" JNull True] sn(2)
  have 6: "load_message ?rt ?n ''N'' JNull True = Inl TypeError"
    by (simp add: start_bit_def)
  from 1 2 3 4 5 6 show ?thesis by (intro conjI)
qed

lemma int_or_none_InrD:
  assumes "int_or_none rt v = Inr r"
  shows "(v = JNull \<longrightarrow> r = None) \<and> (v \<noteq> JNull \<longrightarrow> (\<exists>n. py_int rt v = Inr n \<and> r = Some n))"
  using assms by (auto simp: int_or_none_def bindE_eq_Inr split: if_splits)

lemma load_signal_mux:
  assumes "load_signal rt sj nm = Inr s" and "get_value sj ''mux_id'' JNull = Inr v"
  shows "(v \<noteq> JNull \<longrightarrow> (\<exists>n. py_int rt v = Inr n \<and> sig_multiplexer_ids s = Some [n]) \<and> sig_is_multiplexed s)
       \<and> (v = JNull \<longrightarrow> sig_multiplexer_ids s = None \<and> \<not> sig_is_multiplexed s)
       \<and> sig_multiplexer_signal s = None
       \<and> has_multiplexer_ids s = sig_is_multiplexed s"
proof -
  from load_signal_InrD[OF assms(1)] assms(2) obtain mux where
    mux: "int_or_none rt v = Inr mux"
      "sig_multiplexer_ids s = (case mux of None \<Rightarrow> None | Some n \<Rightarrow> Some [n])"
      "sig_is_multiplexed s = (mux \<noteq> None)" "sig_multiplexer_signal s = None"
    by auto
  from int_or_none_InrD[OF mux(1)] mux(2,3,4) show ?thesis
    by (auto simp: has_multiplexer_ids_def)
qed

lemma load_signal_plain:
  assumes "load_signal rt sj nm = Inr s"
  shows "sig_multiplexer_signal s = None \<and> has_multiplexer_ids s = sig_is_multiplexed s \<and> sig_name s = nm"
proof -
  from load_signal_InrD[OF assms] obtain v where "get_value sj ''mux_id'' JNull = Inr v" 
    and "sig_name s = nm" by auto
  with load_signal_mux[OF assms, of v] show ?thesis by simp
qed

lemma load_message_multiplexer:
  assumes "load_message rt message name bus strict = Inr m"
  shows "(filter sig_is_multiplexer (msg_signals m) \<noteq> []
           \<and> sig_name (last (filter sig_is_multiplexer (msg_signals m))) \<noteq> [] \<longrightarrow>
            (\<forall>s\<in>set (msg_signals m). sig_multiplexer_signal s =
               (if has_multiplexer_ids s
                then Some (sig_name (last (filter sig_is_multiplexer (msg_signals m)))) else None)))
       \<and> (filter sig_is_multiplexer (msg_signals m) = []
           \<or> sig_name (last (filter sig_is_multiplexer (msg_signals m))) = [] \<longrightarrow>
            (\<forall>s\<in>set (msg_signals m). sig_multiplexer_signal s = None))
       \<and> (\<forall>s\<in>set (msg_signals m). has_multiplexer_ids s = sig_is_multiplexed s)"
proof -
  from load_message_InrD[OF assms] obtain sj parsed where
    p: "parse_signals rt sj = Inr parsed"
       "msg_signals m = assign_multiplexer (find_multiplexer parsed) parsed" by blast
  from parse_signals_InrD[OF p(1)] obtain kvs where kvs: "parse_items rt kvs = Inr parsed" by blast
  have plain: "\<forall>s\<in>set parsed. sig_multiplexer_signal s = None \<and> has_multiplexer_ids s = sig_is_multiplexed s"
    using parsed_signals[OF kvs] load_signal_plain by blast
  let ?mx = "find_multiplexer parsed"
  define g where "g = (\<lambda>s::'a signal. if (\<exists>m. ?mx = Some m \<and> m \<noteq> []) \<and> has_multiplexer_ids s
              then s\<lparr>sig_multiplexer_signal := ?mx\<rparr> else s)"
  have sigs: "msg_signals m = map g parsed" using p(2) by (simp add: assign_multiplexer_map g_def)
  have g_mux: "\<And>s. sig_is_multiplexer (g s) = sig_is_multiplexer s" by (simp add: g_def)
  have g_name: "\<And>s. sig_name (g s) = sig_name s" by (simp add: g_def)
  have g_ids: "\<And>s. has_multiplexer_ids (g s) = has_multiplexer_ids s"
    by (simp add: g_def has_multiplexer_ids_def)
  have g_med: "\<And>s. sig_is_multiplexed (g s) = sig_is_multiplexed s" by (simp add: g_def)
  have filt: "filter sig_is_multiplexer (msg_signals m) = map g (filter sig_is_multiplexer parsed)"
    unfolding sigs filter_map comp_def g_mux ..
  have empty: "filter sig_is_multiplexer (msg_signals m) = [] \<longleftrightarrow> filter sig_is_multiplexer parsed = []"
    unfolding filt by simp
  have nm: "filter sig_is_multiplexer parsed \<noteq> [] \<Longrightarrow>
       sig_name (last (filter sig_is_multiplexer (msg_signals m))) = sig_name (last (filter sig_is_multiplexer parsed))"
    unfolding filt by (simp add: last_map g_name)
  have mx: "?mx = (if filter sig_is_multiplexer parsed = [] then None
                   else Some (sig_name (last (filter sig_is_multiplexer parsed))))"
    by (rule find_multiplexer_eq)
  have val: "\<And>s. s \<in> set parsed \<Longrightarrow> sig_multiplexer_signal (g s) =
      (if (\<exists>m. ?mx = Some m \<and> m \<noteq> []) \<and> has_multiplexer_ids s then ?mx else None)"
    using plain by (auto simp: g_def)
  have 1: "filter sig_is_multiplexer (msg_signals m) \<noteq> []
           \<and> sig_name (last (filter sig_is_multiplexer (msg_signals m))) \<noteq> [] \<longrightarrow>
            (\<forall>s\<in>set (msg_signals m). sig_multiplexer_signal s =
               (if has_multiplexer_ids s
                then Some (sig_name (last (filter sig_is_multiplexer (msg_signals m)))) else None))"
  proof (intro impI ballI)
    fix s
    assume a: "filter sig_is_multiplexer (msg_signals m) \<noteq> []
           \<and> sig_name (last (filter sig_is_multiplexer (msg_signals m))) \<noteq> []"
       and s: "s \<in> set (msg_signals m)"
    from a empty have ne: "filter sig_is_multiplexer parsed \<noteq> []" by simp
    from s sigs obtain s0 where s0: "s0 \<in> set parsed" "s = g s0" by auto
    from ne mx nm a have mxv: "?mx = Some (sig_name (last (filter sig_is_multiplexer (msg_signals m))))"
      "sig_name (last (filter sig_is_multiplexer (msg_signals m))) \<noteq> []" by simp_all
    show "sig_multiplexer_signal s =
               (if has_multiplexer_ids s
                then Some (sig_name (last (filter sig_is_multiplexer (msg_signals m)))) else None)"
      unfolding s0(2) val[OF s0(1)] g_ids using mxv by simp
  qed
  have 2: "filter sig_is_multiplexer (msg_signals m) = []
           \<or> sig_name (last (filter sig_is_multiplexer (msg_signals m))) = [] \<longrightarrow>
            (\<forall>s\<in>set (msg_signals m). sig_multiplexer_signal s = None)"
  proof (intro impI ballI)
    fix s
    assume a: "filter sig_is_multiplexer (msg_signals m) = []
           \<or> sig_name (last (filter sig_is_multiplexer (msg_signals m))) = []"
       and s: "s \<in> set (msg_signals m)"
    from s sigs obtain s0 where s0: "s0 \<in> set parsed" "s = g s0" by auto
    have "\<not> (\<exists>m. ?mx = Some m \<and> m \<noteq> [])"
    proof (cases "filter sig_is_multiplexer parsed = []")
      case True
      with mx show ?thesis by simp
    next
      case False
      with a empty nm have "sig_name (last (filter sig_is_multiplexer parsed)) = []" by simp
      with mx False show ?thesis by simp
    qed
    then show "sig_multiplexer_signal s = None"
      unfolding s0(2) val[OF s0(1)] by auto
  qed
  have 3: "\<forall>s\<in>set (msg_signals m). has_multiplexer_ids s = sig_is_multiplexed s"
  proof
    fix s assume "s \<in> set (msg_signals m)"
    with sigs obtain s0 where s0: "s0 \<in> set parsed" "s = g s0" by auto
    with plain show "has_multiplexer_ids s = sig_is_multiplexed s"
      unfolding s0(2) g_ids g_med by blast
  qed
  from 1 2 3 show ?thesis by blast
qed

text \<open>
  C4 (as amended). A signal built from a record whose \<open>mux_id\<close> is present and not
  \<open>null\<close> has \<open>multiplexer_ids = [int(mux_id)]\<close> and \<open>is_multiplexed = true\<close>; with
  \<open>mux_id\<close> absent or \<open>null\<close> it has no \<open>multiplexer_ids\<close> and is not multiplexed. In a
  message that \<open>_load_message\<close> builds, if some signal has \<open>is_multiplexer = true\<close> and the
  last such signal in iteration order has a non-empty name, every signal with non-empty
  \<open>multiplexer_ids\<close> has \<open>multiplexer_signal\<close> set to that name and every other signal has
  it unset; if no signal has \<open>is_multiplexer = true\<close>, or the last one has the empty name,
  \<open>multiplexer_signal\<close> is unset in every signal.
\<close>

theorem multiplexer_assignment:
  "(load_signal rt sj nm = Inr s \<and> get_value sj ''mux_id'' JNull = Inr v \<longrightarrow>
      (v \<noteq> JNull \<longrightarrow> (\<exists>n. py_int rt v = Inr n \<and> sig_multiplexer_ids s = Some [n])
                     \<and> sig_is_multiplexed s)
    \<and> (v = JNull \<longrightarrow> sig_multiplexer_ids s = None \<and> \<not> sig_is_multiplexed s))
   \<and> (load_message rt message name bus strict = Inr m \<longrightarrow>
      (filter sig_is_multiplexer (msg_signals m) \<noteq> []
           \<and> sig_name (last (filter sig_is_multiplexer (msg_signals m))) \<noteq> [] \<longrightarrow>
            (\<forall>s\<in>set (msg_signals m). sig_multiplexer_signal s =
               (if has_multiplexer_ids s
                then Some (sig_name (last (filter sig_is_multiplexer (msg_signals m)))) else None)))
       \<and> (filter sig_is_multiplexer (msg_signals m) = []
           \<or> sig_name (last (filter sig_is_multiplexer (msg_signals m))) = [] \<longrightarrow>
            (\<forall>s\<in>set (msg_signals m). sig_multiplexer_signal s = None))
       \<and> (\<forall>s\<in>set (msg_signals m). has_multiplexer_ids s = sig_is_multiplexed s))"
  using load_signal_mux[of rt sj nm s v] load_message_multiplexer[of rt message name bus strict m]
  by blast

theorem multiplexer_assignment_witness:
  "(\<exists>m. load_message (example_rt JNull) message_muxed ''X'' JNull True = Inr m
       \<and> map (\<lambda>s. (sig_name s, sig_is_multiplexer s, sig_multiplexer_ids s,
                    sig_is_multiplexed s, sig_multiplexer_signal s)) (msg_signals m)
           = [(''M'', True, None, False, None),
              (''S'', False, Some [2], True, Some ''M''),
              (''P'', False, None, False, None)]
       \<and> sig_name (last (filter sig_is_multiplexer (msg_signals m))) = ''M''
       \<and> list_all (\<lambda>s. sig_multiplexer_signal s = (if has_multiplexer_ids s then Some ''M'' else None))
           (msg_signals m))
   \<and> (\<exists>s. load_signal (example_rt JNull)
              (JObj [(''start_position'', JInt 8), (''mux_id'', JInt 2)]) ''S'' = Inr s
         \<and> sig_multiplexer_ids s = Some [2] \<and> sig_is_multiplexed s)"
proof -
  let ?view = "\<lambda>s::rat signal. (sig_name s, sig_is_multiplexer s, sig_multiplexer_ids s,
                    sig_is_multiplexed s, sig_multiplexer_signal s)"
  have "map_sum id (\<lambda>m. map ?view (msg_signals m))
          (load_message (example_rt JNull) message_muxed ''X'' JNull True)
        = Inr [(''M'', True, None, False, None),
              (''S'', False, Some [2], True, Some ''M''),
              (''P'', False, None, False, None)]"
    by (simp add: eval_defs message_muxed_def)
  then obtain m where m: "load_message (example_rt JNull) message_muxed ''X'' JNull True = Inr m"
      and v: "map ?view (msg_signals m)
           = [(''M'', True, None, False, None),
              (''S'', False, Some [2], True, Some ''M''),
              (''P'', False, None, False, None)]"
    by (cases "load_message (example_rt JNull) message_muxed ''X'' JNull True") auto
  from v have f: "filter sig_is_multiplexer (msg_signals m) \<noteq> []"
      and l: "sig_name (last (filter sig_is_multiplexer (msg_signals m))) = ''M''"
    by (auto simp: map_eq_Cons_conv)
  let ?sj = "JObj [(''start_position'', JInt 8), (''mux_id'', JInt 2)] :: rat json"
  have "map_sum id sig_name (load_signal (example_rt JNull) ?sj ''S'') = Inr ''S''"
    by (simp add: eval_defs)
  then obtain s where s: "load_signal (example_rt JNull) ?sj ''S'' = Inr s"
    by (cases "load_signal (example_rt JNull) ?sj ''S''") auto
  have g: "get_value ?sj ''mux_id'' JNull = Inr (JInt 2)" by (simp add: get_value_def)
  note T = multiplexer_assignment[where rt="example_rt JNull" and message=message_muxed
      and name="''X''" and bus=JNull and strict=True and m=m and sj="?sj" and nm="''S''"
      and s=s and v="JInt 2"]
  from T m f l
  have "\<forall>s\<in>set (msg_signals m). sig_multiplexer_signal s =
               (if has_multiplexer_ids s then Some ''M'' else None)"
    by simp
  then have a: "list_all (\<lambda>s. sig_multiplexer_signal s = (if has_multiplexer_ids s then Some ''M'' else None))
           (msg_signals m)"
    by (simp add: list_all_iff)
  from T s g have b: "sig_multiplexer_ids s = Some [2] \<and> sig_is_multiplexed s" by simp
  have 1: "\<exists>m. load_message (example_rt JNull) message_muxed ''X'' JNull True = Inr m
       \<and> map ?view (msg_signals m)
           = [(''M'', True, None, False, None),
              (''S'', False, Some [2], True, Some ''M''),
              (''P'', False, None, False, None)]
       \<and> sig_name (last (filter sig_is_multiplexer (msg_signals m))) = ''M''
       \<and> list_all (\<lambda>s. sig_multiplexer_signal s = (if has_multiplexer_ids s then Some ''M'' else None))
           (msg_signals m)"
    using m v l a by (intro exI[of _ m]) simp
  have 2: "\<exists>s. load_signal (example_rt JNull) ?sj ''S'' = Inr s
         \<and> sig_multiplexer_ids s = Some [2] \<and> sig_is_multiplexed s"
    using s b by blast
  from 1 2 show ?thesis by (intro conjI)
qed

text \<open>
  The claim C4 as it is written fails on \<open>message_unnamed_muxer\<close>: the signal with the
  empty name is a multiplexer, yet \<open>S\<close>, whose \<open>multiplexer_ids\<close> is \<open>[2]\<close>, keeps
  \<open>multiplexer_signal\<close> unset (the condition \<open>if multiplexer:\<close> is false for the empty
  name); and \<open>T\<close>, which has a \<open>mux_id\<close> field (\<open>null\<close>), has no \<open>multiplexer_ids\<close> and is
  not multiplexed.
\<close>

theorem multiplexer_assignment_counterexample:
  "map_sum id
     (\<lambda>m. map (\<lambda>s. (sig_name s, sig_is_multiplexer s, sig_multiplexer_ids s,
                     sig_is_multiplexed s, sig_multiplexer_signal s)) (msg_signals m))
     (load_message (example_rt JNull) message_unnamed_muxer ''X'' JNull True)
   = Inr [('''', True, None, False, None),
          (''S'', False, Some [2], True, None),
          (''T'', False, None, False, None)]"
  by (simp add: load_message_def message_unnamed_muxer_def parse_signals_def load_signal_def
        get_value_def int_or_none_def load_labels_def odin_start_bit_def example_rt_def
        find_multiplexer_def assign_multiplexer_def resolve_length_def start_bit_def
        has_multiplexer_ids_def)

subsection \<open>The document assembler\<close>

lemma load_root_InrD:
  assumes "load_root rt string = Inr (mj, bj)"
  shows "\<exists>odin. json_loads rt string = Inr odin \<and> py_getitem odin ''messages'' = Inr mj
           \<and> py_getitem odin ''busMetadata'' = Inr bj"
  using assms unfolding load_root_def
  by (auto simp: bindE_eq_Inr split: sum.splits error.splits)

lemma load_string_InrD:
  assumes "load_string rt string strict = Inr db"
  shows "\<exists>odin items bj nodes.
           json_loads rt string = Inr odin \<and>
           py_getitem odin ''messages'' = Inr (JObj items) \<and>
           py_getitem odin ''busMetadata'' = Inr bj \<and>
           load_messages rt items (case map_of items ''name'' of None \<Rightarrow> JNull | Some v \<Rightarrow> v)
             strict [] [] = Inr (nodes, db_messages db) \<and>
           db_nodes db = map (\<lambda>node. \<lparr> node_name = node, node_comment = None \<rparr>) nodes \<and>
           db_buses db = (case map_of items ''name'' of
                            None \<Rightarrow> []
                          | Some v \<Rightarrow> if truthy rt v then [v] else []) \<and>
           db_version db = ''0''"
proof -
  from assms obtain mj bj where root: "load_root rt string = Inr (mj, bj)"
    by (cases "load_root rt string") (auto simp: load_string_def)
  with assms have "bindE (py_contains mj ''name'') (\<lambda>has_name.
     bindE (if has_name then py_getitem mj ''name'' else Inr JNull) (\<lambda>bus.
     (case mj of
        JObj items \<Rightarrow>
          bindE (load_messages rt items bus strict [] []) (\<lambda>(nodes, messages).
          Inr \<lparr> db_messages = messages,
                db_nodes = map (\<lambda>node. \<lparr> node_name = node, node_comment = None \<rparr>) nodes,
                db_buses = (if truthy rt bus then [bus] else []),
                db_version = ''0'' \<rparr>)
      | _ \<Rightarrow> Inl AttributeError))) = Inr db"
    by (simp add: load_string_def Let_def)
  then obtain has_name bus where
        hn: "py_contains mj ''name'' = Inr has_name"
    and bus: "(if has_name then py_getitem mj ''name'' else Inr JNull) = Inr bus"
    and rest: "(case mj of
        JObj items \<Rightarrow>
          bindE (load_messages rt items bus strict [] []) (\<lambda>(nodes, messages).
          Inr \<lparr> db_messages = messages,
                db_nodes = map (\<lambda>node. \<lparr> node_name = node, node_comment = None \<rparr>) nodes,
                db_buses = (if truthy rt bus then [bus] else []),
                db_version = ''0'' \<rparr>)
      | _ \<Rightarrow> Inl AttributeError) = Inr db"
    unfolding bindE_eq_Inr by blast
  from rest obtain items where mj: "mj = JObj items" by (cases mj) simp_all
  from hn bus mj have busv: "bus = (case map_of items ''name'' of None \<Rightarrow> JNull | Some v \<Rightarrow> v)"
    by (auto split: if_splits option.splits)
  from rest mj obtain nodes messages where
    lm: "load_messages rt items bus strict [] [] = Inr (nodes, messages)"
    and db: "db = \<lparr> db_messages = messages,
                db_nodes = map (\<lambda>node. \<lparr> node_name = node, node_comment = None \<rparr>) nodes,
                db_buses = (if truthy rt bus then [bus] else []),
                db_version = ''0'' \<rparr>"
    by (auto simp: bindE_eq_Inr)
  from load_root_InrD[OF root] obtain odin where
    "json_loads rt string = Inr odin" "py_getitem odin ''messages'' = Inr mj"
    "py_getitem odin ''busMetadata'' = Inr bj" by blast
  moreover have "db_buses db = (case map_of items ''name'' of
                            None \<Rightarrow> []
                          | Some v \<Rightarrow> if truthy rt v then [v] else [])"
    using db busv by (simp split: option.splits)
  ultimately show ?thesis using mj lm db busv by auto
qed

lemma load_messages_InrD:
  "load_messages rt items bus strict nodes msgs = Inr (nodes', msgs') \<Longrightarrow>
     \<exists>new. msgs' = msgs @ new
        \<and> list_all2 (\<lambda>kv m. load_message rt (snd kv) (fst kv) bus strict = Inr m) items new"
proof (induction items arbitrary: nodes msgs)
  case Nil
  then show ?case by simp
next
  case (Cons a items)
  obtain nm msg where a: "a = (nm, msg)" by (cases a)
  from Cons.prems a obtain m n2 where
    m: "load_message rt msg nm bus strict = Inr m"
    and rest: "load_messages rt items bus strict n2 (msgs @ [m]) = Inr (nodes', msgs')"
    by (auto simp: bindE_eq_Inr)
  from Cons.IH[OF rest] obtain new where
    "msgs' = (msgs @ [m]) @ new"
    "list_all2 (\<lambda>kv m. load_message rt (snd kv) (fst kv) bus strict = Inr m) items new" by blast
  with m a show ?case by (intro exI[of _ "m # new"]) simp
qed

lemma list_all2_witness:
  assumes "list_all2 P xs ys" and "x \<in> set xs"
  shows "\<exists>y. P x y"
proof -
  from assms(2) obtain i where "i < length xs" "xs ! i = x" by (metis in_set_conv_nth)
  with list_all2_nthD[OF assms(1), of i] show ?thesis by blast
qed

text \<open>
  C5 (as amended). For every input text that parses to a JSON object in which the key
  \<open>messages\<close> or the key \<open>busMetadata\<close> is absent, \<open>load_string\<close> raises the \<open>ValueError\<close>
  with the message \<open>Expected "messages" and "busMetadata" at root of the Odin JSON file\<close>
  and returns no database. A text that the parser rejects with a \<open>JSONDecodeError\<close> makes
  \<open>load_string\<close> raise that error, which is another one.
\<close>

theorem missing_root_key:
  assumes "json_loads rt string = Inr (JObj kvs)"
      and "map_of kvs ''messages'' = None \<or> map_of kvs ''busMetadata'' = None"
  shows \<open>load_string rt string strict
           = Inl (ValueError ''Expected "messages" and "busMetadata" at root of the Odin JSON file'')
         \<and> (json_loads rt string' = Inl JSONDecodeError \<longrightarrow> load_string rt string' strict = Inl JSONDecodeError)
         \<and> JSONDecodeError
             \<noteq> ValueError ''Expected "messages" and "busMetadata" at root of the Odin JSON file''\<close>
proof -
  have "load_root rt string = Inl (ValueError root_error)"
    using assms by (auto simp: load_root_def split: option.splits)
  then have "load_string rt string strict = Inl (ValueError root_error)"
    by (simp add: load_string_def)
  moreover have "json_loads rt string' = Inl JSONDecodeError \<longrightarrow> load_string rt string' strict = Inl JSONDecodeError"
    by (simp add: load_string_def load_root_def)
  ultimately show ?thesis by (simp add: root_error_def)
qed

theorem missing_root_key_witness:
  \<open>load_string (example_rt doc_no_messages) [] True
     = Inl (ValueError ''Expected "messages" and "busMetadata" at root of the Odin JSON file'')
   \<and> load_string (example_rt doc_no_bus_metadata) [] True
     = Inl (ValueError ''Expected "messages" and "busMetadata" at root of the Odin JSON file'')
   \<and> json_loads ((example_rt doc_no_messages)\<lparr>json_loads :=
          \<lambda>s. if s = ''{'' then Inl JSONDecodeError else Inr doc_no_messages\<rparr>) ''{''
     = Inl JSONDecodeError
   \<and> load_string ((example_rt doc_no_messages)\<lparr>json_loads :=
          \<lambda>s. if s = ''{'' then Inl JSONDecodeError else Inr doc_no_messages\<rparr>) ''{'' True
     = Inl JSONDecodeError\<close>
proof -
  let ?rt = "(example_rt doc_no_messages)\<lparr>json_loads :=
          \<lambda>s. if s = ''{'' then Inl JSONDecodeError else Inr doc_no_messages\<rparr>"
  have a: "json_loads (example_rt doc_no_messages) [] = Inr (JObj [(''busMetadata'', JObj [])])"
    by (simp add: example_rt_def doc_no_messages_def)
  have b: "json_loads (example_rt doc_no_bus_metadata) [] = Inr (JObj [(''messages'', JObj [])])"
    by (simp add: example_rt_def doc_no_bus_metadata_def)
  have c: "json_loads ?rt [] = Inr (JObj [(''busMetadata'', JObj [])])"
    by (simp add: doc_no_messages_def)
  have d: "json_loads ?rt ''{'' = Inl JSONDecodeError" by simp
  have 1: "load_string (example_rt doc_no_messages) [] True = Inl (ValueError root_error)"
    using missing_root_key[OF a, of True "[]"] by (simp add: root_error_def)
  have 2: "load_string (example_rt doc_no_bus_metadata) [] True = Inl (ValueError root_error)"
    using missing_root_key[OF b, of True "[]"] by (simp add: root_error_def)
  have 3: "load_string ?rt ''{'' True = Inl JSONDecodeError"
    using missing_root_key[OF c, of True "''{''"] d by simp
  from 1 2 3 d show ?thesis by (simp add: root_error_def)
qed

text \<open>
  The claim C5 as it is written fails: on the document \<open>{}\<close> the message of the error is
  not the one that the claim quotes, and on the document \<open>[]\<close>, which has neither key, the
  error is a \<open>TypeError\<close>, not the format error.
\<close>

theorem missing_root_key_counterexample:
  \<open>load_string (example_rt (JObj [])) [] True
     = Inl (ValueError ''Expected "messages" and "busMetadata" at root of the Odin JSON file'')
   \<and> ''Expected "messages" and "busMetadata" at root of the Odin JSON file''
       \<noteq> ''Expected 'messages' and 'busMetadata' at root of the document''
   \<and> load_string (example_rt (JArr [])) [] True = Inl TypeError\<close>
  by (simp add: load_string_def load_root_def example_rt_def root_error_def)

text \<open>
  C7 (as amended). In a database that \<open>load_string\<close> returns, the bus sequence has exactly
  one entry, the value of the key \<open>name\<close> of the \<open>messages\<close> record, if that key is present
  and its value is true in a condition (for a str: not empty); it is empty if the key is
  absent or its value is false in a condition (the empty str, \<open>null\<close>, 0, ...). The version
  marker is always \<open>"0"\<close>.
\<close>

theorem bus_sequence:
  assumes "load_string rt string strict = Inr db"
  shows "\<exists>odin items. json_loads rt string = Inr odin
           \<and> py_getitem odin ''messages'' = Inr (JObj items)
           \<and> db_buses db = (case map_of items ''name'' of
                              None \<Rightarrow> []
                            | Some v \<Rightarrow> if truthy rt v then [v] else [])
           \<and> (\<forall>s. map_of items ''name'' = Some (JStr s) \<longrightarrow>
                  db_buses db = (if s = [] then [] else [JStr s]))
           \<and> db_version db = ''0''"
proof -
  from load_string_InrD[OF assms] obtain odin items where
    o: "json_loads rt string = Inr odin" "py_getitem odin ''messages'' = Inr (JObj items)"
       "db_buses db = (case map_of items ''name'' of
                              None \<Rightarrow> []
                            | Some v \<Rightarrow> if truthy rt v then [v] else [])"
       "db_version db = ''0''" by blast
  from o(3) have "\<forall>s. map_of items ''name'' = Some (JStr s) \<longrightarrow>
                  db_buses db = (if s = [] then [] else [JStr s])" by simp
  with o show ?thesis by blast
qed

theorem bus_sequence_witness:
  "(\<exists>db. load_string (example_rt doc_bus) [] True = Inr db
        \<and> db_buses db = [JStr ''BUS''] \<and> db_version db = ''0'')
   \<and> (\<exists>db. load_string (example_rt doc_nodes) [] True = Inr db
        \<and> db_buses db = [] \<and> db_version db = ''0'')"
proof -
  have "map_sum id (\<lambda>db. (db_buses db, db_version db)) (load_string (example_rt doc_bus) [] True)
          = Inr ([JStr ''BUS''], ''0'')"
    by (simp add: eval_defs doc_bus_def)
  then obtain db where db: "load_string (example_rt doc_bus) [] True = Inr db"
    by (cases "load_string (example_rt doc_bus) [] True") auto
  from bus_sequence[OF db] obtain odin items where
    o: "json_loads (example_rt doc_bus) [] = Inr odin"
       "py_getitem odin ''messages'' = Inr (JObj items)"
       "\<forall>s. map_of items ''name'' = Some (JStr s) \<longrightarrow> db_buses db = (if s = [] then [] else [JStr s])"
       "db_version db = ''0''"
    by blast
  from o(1,2) have "map_of items ''name'' = Some (JStr ''BUS'')"
    by (auto simp: example_rt_def doc_bus_def)
  with o(3,4) db have 1: "\<exists>db. load_string (example_rt doc_bus) [] True = Inr db
        \<and> db_buses db = [JStr ''BUS''] \<and> db_version db = ''0''" by auto
  have "map_sum id (\<lambda>db. (db_buses db, db_version db)) (load_string (example_rt doc_nodes) [] True)
          = Inr ([], ''0'')"
    by (simp add: eval_defs doc_nodes_def)
  then obtain db' where db': "load_string (example_rt doc_nodes) [] True = Inr db'"
    by (cases "load_string (example_rt doc_nodes) [] True") auto
  from bus_sequence[OF db'] obtain odin' items' where
    o': "json_loads (example_rt doc_nodes) [] = Inr odin'"
       "py_getitem odin' ''messages'' = Inr (JObj items')"
       "db_buses db' = (case map_of items' ''name'' of
                              None \<Rightarrow> []
                            | Some v \<Rightarrow> if truthy (example_rt doc_nodes) v then [v] else [])"
       "db_version db' = ''0''"
    by blast
  from o'(1,2) have "map_of items' ''name'' = None"
    by (auto simp: example_rt_def doc_nodes_def)
  with o'(3,4) db' have 2: "\<exists>db. load_string (example_rt doc_nodes) [] True = Inr db
        \<and> db_buses db = [] \<and> db_version db = ''0''" by auto
  from 1 2 show ?thesis by (intro conjI)
qed

text \<open>
  The claim C7 as it is written fails on \<open>doc_empty_bus_name\<close>: \<open>messages\<close> has the key
  \<open>name\<close>, its value is the empty str, and the bus sequence of the database is empty.
\<close>

theorem bus_sequence_counterexample:
  "py_getitem doc_empty_bus_name ''messages''
     = Inr (JObj [(''name'', JStr ''''),
                  (''M1'', JObj [(''message_id'', JInt 1), (''length_bytes'', JInt 8)])])
   \<and> map_sum id (\<lambda>db. (map msg_name (db_messages db), db_buses db, db_version db))
       (load_string (example_rt doc_empty_bus_name) [] True)
     = Inr ([''name'', ''M1''], [], ''0'')"
  by (simp add: eval_defs doc_empty_bus_name_def)

text \<open>
  The loop of \<open>load_string\<close> builds one message for every item of \<open>messages\<close>, in
  iteration order, the item \<open>name\<close> included.
\<close>

lemma messages_follow_items:
  assumes "load_string rt string strict = Inr db"
  shows "\<exists>odin items. json_loads rt string = Inr odin
           \<and> py_getitem odin ''messages'' = Inr (JObj items)
           \<and> map msg_name (db_messages db) = map fst items"
proof -
  from load_string_InrD[OF assms] obtain odin items nodes where
    o: "json_loads rt string = Inr odin" "py_getitem odin ''messages'' = Inr (JObj items)"
    and lm: "load_messages rt items (case map_of items ''name'' of None \<Rightarrow> JNull | Some v \<Rightarrow> v)
             strict [] [] = Inr (nodes, db_messages db)"
    by blast
  from load_messages_InrD[OF lm] have
    "list_all2 (\<lambda>kv m. load_message rt (snd kv) (fst kv)
        (case map_of items ''name'' of None \<Rightarrow> JNull | Some v \<Rightarrow> v) strict = Inr m)
       items (db_messages db)"
    by simp
  then have "list_all2 (\<lambda>kv m. msg_name m = fst kv) items (db_messages db)"
    by (rule list_all2_mono) (auto dest: load_message_InrD)
  then have "map msg_name (db_messages db) = map fst items"
    by (induction rule: list_all2_induct) simp_all
  with o show ?thesis by blast
qed

text \<open>
  C2. On \<open>doc_bus\<close>, whose \<open>messages\<close> record has the bus name \<open>BUS\<close> under the key
  \<open>name\<close> beside the message \<open>M1\<close>, the loader returns two messages: the first is named
  \<open>name\<close>, has the frame id 0, the length 0 and no signals, and was built from the str
  \<open>BUS\<close> (no field that \<open>_get_value\<close> looks for occurs in the str as a substring, so
  every default applies). On \<open>doc_bus_signals\<close>, where the bus name is \<open>signals\<close>, the same
  call finds the field \<open>signals\<close> in the str and raises a \<open>TypeError\<close>.
\<close>

theorem bus_name_loaded_as_message:
  "map_sum id
     (\<lambda>db. map (\<lambda>m. (msg_name m, msg_frame_id m, msg_length m, msg_signals m, msg_bus_name m))
              (db_messages db))
     (load_string (example_rt doc_bus) [] True)
   = Inr [(''name'', 0, 0, [], JStr ''BUS''), (''M1'', 1, 8, [], JStr ''BUS'')]
   \<and> load_message (example_rt doc_bus_signals) (JStr ''signals'') ''name'' (JStr ''signals'') True
     = Inl TypeError
   \<and> load_string (example_rt doc_bus_signals) [] True = Inl TypeError"
  by (simp add: eval_defs doc_bus_def doc_bus_signals_def)

lemma load_signal_startD:
  assumes "load_signal rt sj nm = Inr s"
  shows "\<exists>sp offset en.
           get_value sj ''start_position'' JNull = Inr sp \<and>
           int_or_none rt sp = Inr offset \<and>
           get_value sj ''endianness'' (JStr ''LITTLE'') = Inr en \<and>
           sig_byte_order s = (if en = JStr ''BIG'' then ''big_endian'' else ''little_endian'') \<and>
           odin_start_bit offset (sig_byte_order s) = Inr (sig_start s)"
  using load_signal_InrD[OF assms] by (elim exE conjE) (intro exI conjI; assumption)

lemma load_signal_big_no_start:
  assumes "get_value sj ''start_position'' JNull = Inr JNull"
      and "get_value sj ''endianness'' (JStr ''LITTLE'') = Inr (JStr ''BIG'')"
  shows "\<exists>e. load_signal rt sj nm = Inl e"
proof (cases "load_signal rt sj nm")
  case (Inl e)
  then show ?thesis by blast
next
  case (Inr s)
  from load_signal_startD[OF Inr] obtain sp offset en where
    o: "get_value sj ''start_position'' JNull = Inr sp" "int_or_none rt sp = Inr offset"
       "get_value sj ''endianness'' (JStr ''LITTLE'') = Inr en"
       "sig_byte_order s = (if en = JStr ''BIG'' then ''big_endian'' else ''little_endian'')"
       "odin_start_bit offset (sig_byte_order s) = Inr (sig_start s)" by blast
  from o(1,3) assms have "sp = JNull" "en = JStr ''BIG''" by simp_all
  with o(2,4,5) show ?thesis by (simp add: int_or_none_def odin_start_bit_def)
qed

lemma load_signal_no_start:
  assumes "get_value sj ''start_position'' JNull = Inr JNull"
      and "load_signal rt sj nm = Inr s"
  shows "sig_start s = None \<and> sig_byte_order s = ''little_endian''"
proof -
  from load_signal_startD[OF assms(2)] obtain sp offset en where
    o: "get_value sj ''start_position'' JNull = Inr sp" "int_or_none rt sp = Inr offset"
       "sig_byte_order s = (if en = JStr ''BIG'' then ''big_endian'' else ''little_endian'')"
       "odin_start_bit offset (sig_byte_order s) = Inr (sig_start s)"
       "get_value sj ''endianness'' (JStr ''LITTLE'') = Inr en" by blast
  from o(1) assms(1) have "sp = JNull" by simp
  with o(2) have "offset = None" by (simp add: int_or_none_def)
  with o(3,4) show ?thesis by (auto simp: odin_start_bit_def split: if_splits)
qed

lemma load_message_signal_fails:
  assumes "get_value message ''signals'' (JObj []) = Inr (JObj sigs)"
      and "(nm, sj) \<in> set sigs"
      and "load_signal rt sj nm = Inl e"
  shows "\<exists>e'. load_message rt message name bus strict = Inl e'"
proof (cases "load_message rt message name bus strict")
  case (Inl e')
  then show ?thesis by blast
next
  case (Inr m)
  from load_message_InrD[OF Inr] assms(1) obtain parsed where
    "parse_signals rt (JObj sigs) = Inr parsed" by auto
  then have "parse_items rt sigs = Inr parsed" by (simp add: parse_signals_def)
  from list_all2_witness[OF parse_items_InrD[OF this] assms(2)] assms(3)
  show ?thesis by simp
qed

lemma load_string_message_fails:
  assumes "json_loads rt string = Inr odin"
      and "py_getitem odin ''messages'' = Inr (JObj items)"
      and "(mname, message) \<in> set items"
      and "\<And>bus. \<exists>e. load_message rt message mname bus strict = Inl e"
  shows "\<exists>e. load_string rt string strict = Inl e"
proof (cases "load_string rt string strict")
  case (Inl e)
  then show ?thesis by blast
next
  case (Inr db)
  from load_string_InrD[OF Inr] assms(1,2) obtain nodes bus where
    "load_messages rt items bus strict [] [] = Inr (nodes, db_messages db)" by auto
  from load_messages_InrD[OF this] obtain new where
    "list_all2 (\<lambda>kv m. load_message rt (snd kv) (fst kv) bus strict = Inr m) items new" by blast
  from list_all2_witness[OF this assms(3)] assms(4)[of bus] show ?thesis by auto
qed

text \<open>
  What \<open>_load_signal\<close> computes once the fields before the normalizer are read and
  converted.
\<close>

lemma load_signal_eq:
  assumes "get_value sj ''width'' (JInt 1) = Inr width" and "py_int rt width = Inr len"
      and "get_value sj ''start_position'' JNull = Inr sp" and "int_or_none rt sp = Inr offset"
      and "get_value sj ''signedness'' (JStr ''UNSIGNED'') = Inr sg"
      and "get_value sj ''endianness'' (JStr ''LITTLE'') = Inr en"
      and "get_value sj ''minimum'' JNull = Inr mn" and "int_or_none rt mn = Inr minimum"
      and "get_value sj ''maximum'' JNull = Inr mx" and "int_or_none rt mx = Inr maximum"
      and "get_value sj ''receivers'' (JArr []) = Inr receivers"
      and "get_value sj ''scale'' (JInt 1) = Inr sc" and "py_float rt sc = Inr slope"
      and "get_value sj ''units'' JNull = Inr unit"
      and "get_value sj ''offset'' (JInt 0) = Inr ofs" and "py_float rt ofs = Inr intercept"
      and "get_value sj ''value_description'' JNull = Inr vd" and "load_labels rt vd = Inr labels"
  shows "load_signal rt sj nm =
     bindE (odin_start_bit offset (if en = JStr ''BIG'' then ''big_endian'' else ''little_endian''))
       (\<lambda>start.
     bindE (get_value sj ''mux_id'' JNull) (\<lambda>mux_id.
     bindE (int_or_none rt mux_id) (\<lambda>mux.
     bindE (get_value sj ''is_muxer'' JNull) (\<lambda>is_muxer.
     Inr \<lparr> sig_name = nm,
           sig_start = start,
           sig_length = len,
           sig_receivers = receivers,
           sig_byte_order = (if en = JStr ''BIG'' then ''big_endian'' else ''little_endian''),
           sig_is_signed = (sg = JStr ''SIGNED''),
           sig_scale = slope,
           sig_offset = intercept,
           sig_minimum = minimum,
           sig_maximum = maximum,
           sig_unit = unit,
           sig_choices = labels,
           sig_comment = None,
           sig_is_float = False,
           sig_decimal_scale = slope,
           sig_decimal_offset = intercept,
           sig_multiplexer_ids = (case mux of None \<Rightarrow> None | Some n \<Rightarrow> Some [n]),
           sig_is_multiplexed = (mux \<noteq> None),
           sig_is_multiplexer = (is_muxer \<noteq> JNull \<and> py_eq rt is_muxer (JBool True)),
           sig_multiplexer_signal = None \<rparr>))))"
  using assms by (simp add: load_signal_def Let_def)

text \<open>
  C8 (as amended). For a signal record without \<open>start_position\<close> (absent or \<open>null\<close>):
  if its \<open>endianness\<close> is \<open>BIG\<close>, \<open>_load_signal\<close> raises and builds no signal, and
  loading a document that has the record among the signals of one of its messages raises
  and returns no database; the error of \<open>_load_signal\<close> is the \<open>TypeError\<close> of the
  normalizer on \<open>None\<close> when every field that is read before the normalizer runs
  (\<open>width\<close>, \<open>signedness\<close>, \<open>minimum\<close>, \<open>maximum\<close>, \<open>receivers\<close>, \<open>scale\<close>, \<open>units\<close>,
  \<open>offset\<close>, \<open>value_description\<close>) is read and converted without error, while a
  \<open>width\<close> that \<open>int\<close> rejects raises the error of \<open>int\<close> before the normalizer runs,
  whatever the byte order. If the \<open>endianness\<close> is not \<open>BIG\<close>, the normalizer returns
  \<open>None\<close> without an error: a signal that \<open>_load_signal\<close> builds has the start \<open>None\<close>
  and the byte order \<open>little_endian\<close>, and \<open>_load_signal\<close> does build one, with the name
  and the width of the record, when all the fields of the record are read and converted
  without error.
\<close>

theorem missing_start_position:
  assumes "get_value sj ''start_position'' JNull = Inr JNull"
  shows "odin_start_bit None ''big_endian'' = Inl TypeError
       \<and> odin_start_bit None ''little_endian'' = Inr None
       \<and> (get_value sj ''endianness'' (JStr ''LITTLE'') = Inr (JStr ''BIG'') \<longrightarrow>
            (\<exists>e. load_signal rt sj nm = Inl e)
          \<and> (get_value sj ''width'' (JInt 1) = Inr width \<and> py_int rt width = Inr len
              \<and> get_value sj ''signedness'' (JStr ''UNSIGNED'') = Inr sg
              \<and> get_value sj ''minimum'' JNull = Inr mn \<and> int_or_none rt mn = Inr minimum
              \<and> get_value sj ''maximum'' JNull = Inr mx \<and> int_or_none rt mx = Inr maximum
              \<and> get_value sj ''receivers'' (JArr []) = Inr receivers
              \<and> get_value sj ''scale'' (JInt 1) = Inr sc \<and> py_float rt sc = Inr slope
              \<and> get_value sj ''units'' JNull = Inr unit
              \<and> get_value sj ''offset'' (JInt 0) = Inr ofs \<and> py_float rt ofs = Inr intercept
              \<and> get_value sj ''value_description'' JNull = Inr vd
              \<and> load_labels rt vd = Inr labels
             \<longrightarrow> load_signal rt sj nm = Inl TypeError)
          \<and> (json_loads rt string = Inr odin
              \<and> py_getitem odin ''messages'' = Inr (JObj items)
              \<and> (mname, message) \<in> set items
              \<and> get_value message ''signals'' (JObj []) = Inr (JObj sigs)
              \<and> (nm, sj) \<in> set sigs
             \<longrightarrow> (\<exists>e. load_string rt string strict = Inl e)))
       \<and> (\<forall>e. get_value sj ''width'' (JInt 1) = Inr width \<and> py_int rt width = Inl e \<longrightarrow>
            load_signal rt sj nm = Inl e)
       \<and> (load_signal rt sj nm = Inr s \<longrightarrow> sig_start s = None \<and> sig_byte_order s = ''little_endian'')
       \<and> (get_value sj ''endianness'' (JStr ''LITTLE'') = Inr en \<and> en \<noteq> JStr ''BIG''
            \<and> get_value sj ''width'' (JInt 1) = Inr width \<and> py_int rt width = Inr len
            \<and> get_value sj ''signedness'' (JStr ''UNSIGNED'') = Inr sg
            \<and> get_value sj ''minimum'' JNull = Inr mn \<and> int_or_none rt mn = Inr minimum
            \<and> get_value sj ''maximum'' JNull = Inr mx \<and> int_or_none rt mx = Inr maximum
            \<and> get_value sj ''receivers'' (JArr []) = Inr receivers
            \<and> get_value sj ''scale'' (JInt 1) = Inr sc \<and> py_float rt sc = Inr slope
            \<and> get_value sj ''units'' JNull = Inr unit
            \<and> get_value sj ''offset'' (JInt 0) = Inr ofs \<and> py_float rt ofs = Inr intercept
            \<and> get_value sj ''value_description'' JNull = Inr vd
            \<and> load_labels rt vd = Inr labels
            \<and> get_value sj ''mux_id'' JNull = Inr mux_id \<and> int_or_none rt mux_id = Inr mux
            \<and> get_value sj ''is_muxer'' JNull = Inr is_muxer
           \<longrightarrow> (\<exists>s'. load_signal rt sj nm = Inr s' \<and> sig_name s' = nm \<and> sig_length s' = len
                   \<and> sig_start s' = None \<and> sig_byte_order s' = ''little_endian''))"
proof -
  have off: "int_or_none rt JNull = Inr None" by (simp add: int_or_none_def)
  have 1: "odin_start_bit None ''big_endian'' = Inl TypeError"
          "odin_start_bit None ''little_endian'' = Inr None"
    by (simp_all add: odin_start_bit_def)
  have 2: "get_value sj ''endianness'' (JStr ''LITTLE'') = Inr (JStr ''BIG'') \<longrightarrow>
            (\<exists>e. load_signal rt sj nm = Inl e)
          \<and> (get_value sj ''width'' (JInt 1) = Inr width \<and> py_int rt width = Inr len
              \<and> get_value sj ''signedness'' (JStr ''UNSIGNED'') = Inr sg
              \<and> get_value sj ''minimum'' JNull = Inr mn \<and> int_or_none rt mn = Inr minimum
              \<and> get_value sj ''maximum'' JNull = Inr mx \<and> int_or_none rt mx = Inr maximum
              \<and> get_value sj ''receivers'' (JArr []) = Inr receivers
              \<and> get_value sj ''scale'' (JInt 1) = Inr sc \<and> py_float rt sc = Inr slope
              \<and> get_value sj ''units'' JNull = Inr unit
              \<and> get_value sj ''offset'' (JInt 0) = Inr ofs \<and> py_float rt ofs = Inr intercept
              \<and> get_value sj ''value_description'' JNull = Inr vd
              \<and> load_labels rt vd = Inr labels
             \<longrightarrow> load_signal rt sj nm = Inl TypeError)
          \<and> (json_loads rt string = Inr odin
              \<and> py_getitem odin ''messages'' = Inr (JObj items)
              \<and> (mname, message) \<in> set items
              \<and> get_value message ''signals'' (JObj []) = Inr (JObj sigs)
              \<and> (nm, sj) \<in> set sigs
             \<longrightarrow> (\<exists>e. load_string rt string strict = Inl e))"
  proof (intro impI conjI)
    assume big: "get_value sj ''endianness'' (JStr ''LITTLE'') = Inr (JStr ''BIG'')"
    from load_signal_big_no_start[OF assms big] show "\<exists>e. load_signal rt sj nm = Inl e" .
    {
      assume p: "get_value sj ''width'' (JInt 1) = Inr width \<and> py_int rt width = Inr len
              \<and> get_value sj ''signedness'' (JStr ''UNSIGNED'') = Inr sg
              \<and> get_value sj ''minimum'' JNull = Inr mn \<and> int_or_none rt mn = Inr minimum
              \<and> get_value sj ''maximum'' JNull = Inr mx \<and> int_or_none rt mx = Inr maximum
              \<and> get_value sj ''receivers'' (JArr []) = Inr receivers
              \<and> get_value sj ''scale'' (JInt 1) = Inr sc \<and> py_float rt sc = Inr slope
              \<and> get_value sj ''units'' JNull = Inr unit
              \<and> get_value sj ''offset'' (JInt 0) = Inr ofs \<and> py_float rt ofs = Inr intercept
              \<and> get_value sj ''value_description'' JNull = Inr vd
              \<and> load_labels rt vd = Inr labels"
      from p have "load_signal rt sj nm =
          bindE (odin_start_bit None (if JStr ''BIG'' = (JStr ''BIG'' :: 'a json) then ''big_endian'' else ''little_endian''))
            (\<lambda>start.
          bindE (get_value sj ''mux_id'' JNull) (\<lambda>mux_id.
          bindE (int_or_none rt mux_id) (\<lambda>mux.
          bindE (get_value sj ''is_muxer'' JNull) (\<lambda>is_muxer.
          Inr \<lparr> sig_name = nm, sig_start = start, sig_length = len, sig_receivers = receivers,
           sig_byte_order = (if JStr ''BIG'' = (JStr ''BIG'' :: 'a json) then ''big_endian'' else ''little_endian''),
           sig_is_signed = (sg = JStr ''SIGNED''), sig_scale = slope, sig_offset = intercept,
           sig_minimum = minimum, sig_maximum = maximum, sig_unit = unit, sig_choices = labels,
           sig_comment = None, sig_is_float = False, sig_decimal_scale = slope,
           sig_decimal_offset = intercept,
           sig_multiplexer_ids = (case mux of None \<Rightarrow> None | Some n \<Rightarrow> Some [n]),
           sig_is_multiplexed = (mux \<noteq> None),
           sig_is_multiplexer = (is_muxer \<noteq> JNull \<and> py_eq rt is_muxer (JBool True)),
           sig_multiplexer_signal = None \<rparr>))))"
        by (intro load_signal_eq[OF _ _ assms off _ big]) blast+
      then show "load_signal rt sj nm = Inl TypeError" using 1(1) by simp
    }
    assume doc: "json_loads rt string = Inr odin
              \<and> py_getitem odin ''messages'' = Inr (JObj items)
              \<and> (mname, message) \<in> set items
              \<and> get_value message ''signals'' (JObj []) = Inr (JObj sigs)
              \<and> (nm, sj) \<in> set sigs"
    from load_signal_big_no_start[OF assms big, of rt nm] obtain e where
      e: "load_signal rt sj nm = Inl e" by blast
    have "\<And>bus. \<exists>e. load_message rt message mname bus strict = Inl e"
      using load_message_signal_fails[OF _ _ e] doc by blast
    with load_string_message_fails[of rt string odin items mname message strict] doc
    show "\<exists>e. load_string rt string strict = Inl e" by blast
  qed
  have 3: "load_signal rt sj nm = Inr s \<longrightarrow> sig_start s = None \<and> sig_byte_order s = ''little_endian''"
    using load_signal_no_start[OF assms] by blast
  have 4: "get_value sj ''endianness'' (JStr ''LITTLE'') = Inr en \<and> en \<noteq> JStr ''BIG''
            \<and> get_value sj ''width'' (JInt 1) = Inr width \<and> py_int rt width = Inr len
            \<and> get_value sj ''signedness'' (JStr ''UNSIGNED'') = Inr sg
            \<and> get_value sj ''minimum'' JNull = Inr mn \<and> int_or_none rt mn = Inr minimum
            \<and> get_value sj ''maximum'' JNull = Inr mx \<and> int_or_none rt mx = Inr maximum
            \<and> get_value sj ''receivers'' (JArr []) = Inr receivers
            \<and> get_value sj ''scale'' (JInt 1) = Inr sc \<and> py_float rt sc = Inr slope
            \<and> get_value sj ''units'' JNull = Inr unit
            \<and> get_value sj ''offset'' (JInt 0) = Inr ofs \<and> py_float rt ofs = Inr intercept
            \<and> get_value sj ''value_description'' JNull = Inr vd
            \<and> load_labels rt vd = Inr labels
            \<and> get_value sj ''mux_id'' JNull = Inr mux_id \<and> int_or_none rt mux_id = Inr mux
            \<and> get_value sj ''is_muxer'' JNull = Inr is_muxer
           \<longrightarrow> (\<exists>s'. load_signal rt sj nm = Inr s' \<and> sig_name s' = nm \<and> sig_length s' = len
                   \<and> sig_start s' = None \<and> sig_byte_order s' = ''little_endian'')"
  proof
    assume p: "get_value sj ''endianness'' (JStr ''LITTLE'') = Inr en \<and> en \<noteq> JStr ''BIG''
            \<and> get_value sj ''width'' (JInt 1) = Inr width \<and> py_int rt width = Inr len
            \<and> get_value sj ''signedness'' (JStr ''UNSIGNED'') = Inr sg
            \<and> get_value sj ''minimum'' JNull = Inr mn \<and> int_or_none rt mn = Inr minimum
            \<and> get_value sj ''maximum'' JNull = Inr mx \<and> int_or_none rt mx = Inr maximum
            \<and> get_value sj ''receivers'' (JArr []) = Inr receivers
            \<and> get_value sj ''scale'' (JInt 1) = Inr sc \<and> py_float rt sc = Inr slope
            \<and> get_value sj ''units'' JNull = Inr unit
            \<and> get_value sj ''offset'' (JInt 0) = Inr ofs \<and> py_float rt ofs = Inr intercept
            \<and> get_value sj ''value_description'' JNull = Inr vd
            \<and> load_labels rt vd = Inr labels
            \<and> get_value sj ''mux_id'' JNull = Inr mux_id \<and> int_or_none rt mux_id = Inr mux
            \<and> get_value sj ''is_muxer'' JNull = Inr is_muxer"
    then have en: "get_value sj ''endianness'' (JStr ''LITTLE'') = Inr en" "en \<noteq> JStr ''BIG''"
      and sfx: "get_value sj ''mux_id'' JNull = Inr mux_id" "int_or_none rt mux_id = Inr mux"
        "get_value sj ''is_muxer'' JNull = Inr is_muxer"
      by blast+
    from p have "load_signal rt sj nm =
          bindE (odin_start_bit None (if en = JStr ''BIG'' then ''big_endian'' else ''little_endian''))
            (\<lambda>start.
          bindE (get_value sj ''mux_id'' JNull) (\<lambda>mux_id.
          bindE (int_or_none rt mux_id) (\<lambda>mux.
          bindE (get_value sj ''is_muxer'' JNull) (\<lambda>is_muxer.
          Inr \<lparr> sig_name = nm, sig_start = start, sig_length = len, sig_receivers = receivers,
           sig_byte_order = (if en = JStr ''BIG'' then ''big_endian'' else ''little_endian''),
           sig_is_signed = (sg = JStr ''SIGNED''), sig_scale = slope, sig_offset = intercept,
           sig_minimum = minimum, sig_maximum = maximum, sig_unit = unit, sig_choices = labels,
           sig_comment = None, sig_is_float = False, sig_decimal_scale = slope,
           sig_decimal_offset = intercept,
           sig_multiplexer_ids = (case mux of None \<Rightarrow> None | Some n \<Rightarrow> Some [n]),
           sig_is_multiplexed = (mux \<noteq> None),
           sig_is_multiplexer = (is_muxer \<noteq> JNull \<and> py_eq rt is_muxer (JBool True)),
           sig_multiplexer_signal = None \<rparr>))))"
      by (intro load_signal_eq[OF _ _ assms off _ en(1)]) blast+
    with en(2) sfx 1(2)
    show "\<exists>s'. load_signal rt sj nm = Inr s' \<and> sig_name s' = nm \<and> sig_length s' = len
                   \<and> sig_start s' = None \<and> sig_byte_order s' = ''little_endian''"
      by simp
  qed
  have 5: "\<forall>e. get_value sj ''width'' (JInt 1) = Inr width \<and> py_int rt width = Inl e \<longrightarrow>
            load_signal rt sj nm = Inl e"
    by (simp add: load_signal_def)
  from 1 2 5 3 4 show ?thesis by (intro conjI)
qed

theorem missing_start_position_witness:
  "load_signal (example_rt doc_big_no_start)
        (JObj [(''width'', JInt 8), (''endianness'', JStr ''BIG'')]) ''s'' = Inl TypeError
   \<and> (\<exists>e. load_string (example_rt doc_big_no_start) [] True = Inl e)
   \<and> load_string (example_rt doc_big_no_start) [] True = Inl TypeError
   \<and> load_signal (example_rt JNull)
        (JObj [(''width'', JStr ''abc''), (''endianness'', JStr ''BIG'')]) ''s''
       = Inl (ValueError ''invalid literal for int()'')
   \<and> (\<exists>s. load_signal (example_rt JNull) signal_no_start ''s'' = Inr s
          \<and> sig_name s = ''s'' \<and> sig_length s = 8
          \<and> sig_start s = None \<and> sig_byte_order s = ''little_endian'')"
proof -
  let ?rt = "example_rt doc_big_no_start"
  let ?sj = "JObj [(''width'', JInt 8), (''endianness'', JStr ''BIG'')] :: rat json"
  let ?sigs = "[(''s'', ?sj)]"
  let ?msg = "JObj [(''message_id'', JInt 1), (''length_bytes'', JInt 1), (''signals'', JObj ?sigs)]"
  let ?items = "[(''M1'', ?msg)]"
  have a: "get_value ?sj ''start_position'' JNull = Inr JNull" by (simp add: get_value_def)
  have b: "get_value ?sj ''endianness'' (JStr ''LITTLE'') = Inr (JStr ''BIG'')"
    by (simp add: get_value_def)
  have c: "json_loads ?rt [] = Inr doc_big_no_start"
    by (simp add: example_rt_def)
  have d: "py_getitem doc_big_no_start ''messages'' = Inr (JObj ?items)"
    by (simp add: doc_big_no_start_def)
  have e: "get_value ?msg ''signals'' (JObj []) = Inr (JObj ?sigs)" by (simp add: get_value_def)
  have p: "get_value ?sj ''width'' (JInt 1) = Inr (JInt 8) \<and> py_int ?rt (JInt 8) = Inr 8
              \<and> get_value ?sj ''signedness'' (JStr ''UNSIGNED'') = Inr (JStr ''UNSIGNED'')
              \<and> get_value ?sj ''minimum'' JNull = Inr JNull \<and> int_or_none ?rt JNull = Inr None
              \<and> get_value ?sj ''maximum'' JNull = Inr JNull \<and> int_or_none ?rt JNull = Inr None
              \<and> get_value ?sj ''receivers'' (JArr []) = Inr (JArr [])
              \<and> get_value ?sj ''scale'' (JInt 1) = Inr (JInt 1) \<and> py_float ?rt (JInt 1) = Inr 1
              \<and> get_value ?sj ''units'' JNull = Inr JNull
              \<and> get_value ?sj ''offset'' (JInt 0) = Inr (JInt 0) \<and> py_float ?rt (JInt 0) = Inr 0
              \<and> get_value ?sj ''value_description'' JNull = Inr JNull
              \<and> load_labels ?rt JNull = Inr None"
    by (simp add: get_value_def int_or_none_def load_labels_def example_rt_def)
  note T = missing_start_position[OF a, where rt="?rt" and nm="''s''"
      and string="[]" and odin=doc_big_no_start and items="?items" and mname="''M1''"
      and message="?msg" and sigs="?sigs" and strict=True
      and width="JInt 8" and len=8 and sg="JStr ''UNSIGNED''" and mn=JNull and minimum=None
      and mx=JNull and maximum=None and receivers="JArr []" and sc="JInt 1" and slope=1
      and unit=JNull and ofs="JInt 0" and intercept=0 and vd=JNull and labels=None]
  from T b p have 1: "load_signal ?rt ?sj ''s'' = Inl TypeError" by blast
  from T b c d e have 2: "\<exists>e. load_string ?rt [] True = Inl e" by simp
  have 3: "load_string ?rt [] True = Inl TypeError"
    by (simp add: eval_defs doc_big_no_start_def)
  let ?lrt = "example_rt JNull :: rat runtime"
  have a': "get_value signal_no_start ''start_position'' JNull = Inr JNull"
    by (simp add: get_value_def signal_no_start_def)
  have p': "get_value signal_no_start ''endianness'' (JStr ''LITTLE'') = Inr (JStr ''LITTLE'')
            \<and> JStr ''LITTLE'' \<noteq> (JStr ''BIG'' :: rat json)
            \<and> get_value signal_no_start ''width'' (JInt 1) = Inr (JInt 8) \<and> py_int ?lrt (JInt 8) = Inr 8
            \<and> get_value signal_no_start ''signedness'' (JStr ''UNSIGNED'') = Inr (JStr ''UNSIGNED'')
            \<and> get_value signal_no_start ''minimum'' JNull = Inr JNull \<and> int_or_none ?lrt JNull = Inr None
            \<and> get_value signal_no_start ''maximum'' JNull = Inr JNull \<and> int_or_none ?lrt JNull = Inr None
            \<and> get_value signal_no_start ''receivers'' (JArr []) = Inr (JArr [])
            \<and> get_value signal_no_start ''scale'' (JInt 1) = Inr (JInt 1) \<and> py_float ?lrt (JInt 1) = Inr 1
            \<and> get_value signal_no_start ''units'' JNull = Inr JNull
            \<and> get_value signal_no_start ''offset'' (JInt 0) = Inr (JInt 0) \<and> py_float ?lrt (JInt 0) = Inr 0
            \<and> get_value signal_no_start ''value_description'' JNull = Inr JNull
            \<and> load_labels ?lrt JNull = Inr None
            \<and> get_value signal_no_start ''mux_id'' JNull = Inr JNull \<and> int_or_none ?lrt JNull = Inr None
            \<and> get_value signal_no_start ''is_muxer'' JNull = Inr JNull"
    by (simp add: get_value_def int_or_none_def load_labels_def example_rt_def signal_no_start_def)
  note T' = missing_start_position[OF a', where rt="?lrt" and nm="''s''"
      and en="JStr ''LITTLE''"
      and width="JInt 8" and len=8 and sg="JStr ''UNSIGNED''" and mn=JNull and minimum=None
      and mx=JNull and maximum=None and receivers="JArr []" and sc="JInt 1" and slope=1
      and unit=JNull and ofs="JInt 0" and intercept=0 and vd=JNull and labels=None
      and mux_id=JNull and mux=None and is_muxer=JNull]
  from T' p' have 4: "\<exists>s. load_signal ?lrt signal_no_start ''s'' = Inr s
          \<and> sig_name s = ''s'' \<and> sig_length s = 8
          \<and> sig_start s = None \<and> sig_byte_order s = ''little_endian''" by blast
  let ?w = "JObj [(''width'', JStr ''abc''), (''endianness'', JStr ''BIG'')] :: rat json"
  have aw: "get_value ?w ''start_position'' JNull = Inr JNull" by (simp add: get_value_def)
  have w: "get_value ?w ''width'' (JInt 1) = Inr (JStr ''abc'')" by (simp add: get_value_def)
  have wx: "py_int ?lrt (JStr ''abc'') = Inl (ValueError ''invalid literal for int()'')"
    by (simp add: example_rt_def numeral_of_str_def)
  have "\<forall>e. get_value ?w ''width'' (JInt 1) = Inr (JStr ''abc'') \<and> py_int ?lrt (JStr ''abc'') = Inl e
          \<longrightarrow> load_signal ?lrt ?w ''s'' = Inl e"
    by (rule missing_start_position[OF aw, THEN conjunct2, THEN conjunct2, THEN conjunct2,
               THEN conjunct1])
  with w wx
  have 5: "load_signal ?lrt ?w ''s'' = Inl (ValueError ''invalid literal for int()'')"
    by blast
  from 1 2 3 5 4 show ?thesis by (intro conjI)
qed

text \<open>
  The claim C8 as it is written fails on the little-endian signal record \<open>{"width": 8}\<close>:
  the normalizer returns \<open>None\<close> and \<open>_load_signal\<close> returns a signal whose start is
  \<open>None\<close>.
\<close>

theorem missing_start_position_counterexample:
  "odin_start_bit None ''little_endian'' = Inr None
   \<and> map_sum id (\<lambda>s. (sig_name s, sig_start s, sig_length s, sig_byte_order s))
       (load_signal (example_rt JNull) signal_no_start ''s'')
     = Inr (''s'', None, 8, ''little_endian'')"
  by (simp add: eval_defs signal_no_start_def)

lemma py_eq_JStr: "py_eq rt y (JStr s) = (y = JStr s)"
  by (cases y) auto

lemma set_add_JStr:
  "set (set_add rt nodes (JStr s)) = insert (JStr s) (set nodes)
   \<and> (distinct nodes \<longrightarrow> distinct (set_add rt nodes (JStr s)))"
  by (auto simp: set_add_def list_ex_iff py_eq_JStr)

lemma add_all_names:
  assumes "list_all (\<lambda>x. case x of JStr s \<Rightarrow> True | _ \<Rightarrow> False) xs"
  shows "\<exists>nodes'. add_all rt nodes xs = Inr nodes' \<and> set nodes' = set nodes \<union> set xs
           \<and> (distinct nodes \<longrightarrow> distinct nodes')"
  using assms
proof (induction xs arbitrary: nodes)
  case Nil
  then show ?case by simp
next
  case (Cons x xs)
  from Cons.prems obtain s where x: "x = JStr s" by (cases x) simp_all
  from Cons.prems have "list_all (\<lambda>x. case x of JStr s \<Rightarrow> True | _ \<Rightarrow> False) xs" by simp
  from Cons.IH[OF this, of "set_add rt nodes (JStr s)"] obtain nodes' where
    n: "add_all rt (set_add rt nodes (JStr s)) xs = Inr nodes'"
       "set nodes' = set (set_add rt nodes (JStr s)) \<union> set xs"
       "distinct (set_add rt nodes (JStr s)) \<longrightarrow> distinct nodes'" by blast
  from n set_add_JStr[of rt nodes s] x show ?case by auto
qed

text \<open>
  A field that \<open>_get_value\<close> returns is the field of the specification; permuted lists
  have the same elements, so documents that differ in the order of senders and receivers
  have the same node set.
\<close>

lemma get_value_spec_field:
  assumes "get_value e key d = Inr v"
  shows "v = spec_field e key d"
  using assms
  by (cases e) (auto simp: get_value_def bindE_eq_Inr split: if_splits option.splits)

lemma permuted_set: "permuted xs ys \<Longrightarrow> set xs = set ys"
proof -
  assume p: "permuted xs ys"
  have "\<And>x. x \<in> set xs \<union> set ys \<Longrightarrow> count_list xs x = count_list ys x"
    using p by (auto simp: permuted_def list_all_iff)
  then show ?thesis
    by (metis (no_types, lifting) Un_iff count_list_0_iff subsetI subset_antisym)
qed

lemma reordered_elements: "reordered a b \<Longrightarrow> elements a = elements b"
  by (cases a; cases b) (auto dest: permuted_set)

lemma Union_list_all2:
  assumes "list_all2 (\<lambda>x y. f x = g y) xs ys"
  shows "(\<Union>x \<in> set xs. f x) = (\<Union>y \<in> set ys. g y)"
  using assms by (induction rule: list_all2_induct) auto

lemma message_reordered_nodes:
  assumes "message_reordered m m'"
  shows "spec_message_nodes m = spec_message_nodes m'"
proof -
  from assms have s: "elements (spec_field m ''senders'' (JArr []))
                    = elements (spec_field m' ''senders'' (JArr []))"
    by (simp add: message_reordered_def reordered_elements)
  from assms have "list_all2 (\<lambda>kv kv'. elements (spec_field (snd kv) ''receivers'' (JArr []))
                                     = elements (spec_field (snd kv') ''receivers'' (JArr [])))
          (items_of (spec_field m ''signals'' (JObj [])))
          (items_of (spec_field m' ''signals'' (JObj [])))"
    unfolding message_reordered_def
    by (auto elim!: list_all2_mono dest: reordered_elements)
  from Union_list_all2[OF this] s show ?thesis by (simp add: spec_message_nodes_def)
qed

lemma doc_reordered_nodes:
  assumes "doc_reordered items items'"
  shows "spec_node_set items' = spec_node_set items"
  using assms unfolding doc_reordered_def
proof (induction rule: list_all2_induct)
  case Nil
  then show ?case by simp
next
  case (Cons kv items kv' items')
  show ?case
  proof (cases "fst kv = ''name''")
    case True
    with Cons show ?thesis by (simp add: spec_node_set_def)
  next
    case False
    with Cons.hyps(1) have "spec_message_nodes (snd kv) = spec_message_nodes (snd kv')"
      by (simp add: message_reordered_nodes)
    with False Cons show ?thesis by (simp add: spec_node_set_def)
  qed
qed

text \<open>
  On lists of names the updates of \<open>nodes\<close> return, and add the names. The senders and
  receivers of a built message are those of the message dict, so the loop over the
  messages returns when every message is built, with the nodes of all of them.
\<close>

lemma set_update_returns:
  assumes "is_name_list v"
  shows "\<exists>nodes'. set_update rt nodes v = Inr nodes' \<and> set nodes' = set nodes \<union> elements v
           \<and> (distinct nodes \<longrightarrow> distinct nodes')"
proof -
  from assms obtain xs where v: "v = JArr xs"
      and xs: "list_all (\<lambda>x. case x of JStr s \<Rightarrow> True | _ \<Rightarrow> False) xs"
    by (cases v) simp_all
  from add_all_names[OF xs, of rt nodes] v show ?thesis
    by (auto simp: set_update_def)
qed

lemma update_receivers_returns:
  assumes "list_all (\<lambda>s. is_name_list (sig_receivers s)) sigs"
  shows "\<exists>nodes'. update_receivers rt nodes sigs = Inr nodes'
           \<and> set nodes' = set nodes \<union> (\<Union>s \<in> set sigs. elements (sig_receivers s))
           \<and> (distinct nodes \<longrightarrow> distinct nodes')"
  using assms
proof (induction sigs arbitrary: nodes)
  case Nil
  then show ?case by simp
next
  case (Cons s sigs)
  from Cons.prems have s: "is_name_list (sig_receivers s)"
    and sigs: "list_all (\<lambda>s. is_name_list (sig_receivers s)) sigs" by simp_all
  from set_update_returns[OF s, of rt nodes] obtain n1 where
    n1: "set_update rt nodes (sig_receivers s) = Inr n1"
        "set n1 = set nodes \<union> elements (sig_receivers s)" "distinct nodes \<longrightarrow> distinct n1"
    by blast
  from Cons.IH[OF sigs, of n1] obtain n2 where
    n2: "update_receivers rt n1 sigs = Inr n2"
        "set n2 = set n1 \<union> (\<Union>s \<in> set sigs. elements (sig_receivers s))"
        "distinct n1 \<longrightarrow> distinct n2"
    by blast
  from n1 n2 show ?case by (intro exI[of _ n2]) auto
qed

lemma load_signal_receivers:
  assumes "load_signal rt sj nm = Inr s"
  shows "sig_receivers s = spec_field sj ''receivers'' (JArr [])"
proof -
  from load_signal_InrD[OF assms]
  have "get_value sj ''receivers'' (JArr []) = Inr (sig_receivers s)" by blast
  then show ?thesis by (rule get_value_spec_field)
qed

lemma load_message_fields:
  assumes "load_message rt message name bus strict = Inr m"
  shows "msg_senders m = spec_field message ''senders'' (JArr [])
         \<and> list_all2 (\<lambda>kv s. sig_receivers s = spec_field (snd kv) ''receivers'' (JArr []))
             (items_of (spec_field message ''signals'' (JObj []))) (msg_signals m)"
proof -
  from load_message_InrD[OF assms] obtain sj parsed where
    snd: "get_value message ''senders'' (JArr []) = Inr (msg_senders m)"
    and sj: "get_value message ''signals'' (JObj []) = Inr sj"
    and ps: "parse_signals rt sj = Inr parsed"
    and ms: "msg_signals m = assign_multiplexer (find_multiplexer parsed) parsed"
    by blast
  from parse_signals_InrD[OF ps] obtain kvs where
    kvs: "sj = JObj kvs" "parse_items rt kvs = Inr parsed" by blast
  from get_value_spec_field[OF sj] kvs(1)
  have "spec_field message ''signals'' (JObj []) = JObj kvs" by simp
  then have items: "items_of (spec_field message ''signals'' (JObj [])) = kvs" by simp
  have "list_all2 (\<lambda>kv s. sig_receivers s = spec_field (snd kv) ''receivers'' (JArr []))
          kvs parsed"
    using parse_items_InrD[OF kvs(2)]
    by (rule list_all2_mono) (rule load_signal_receivers)
  then have "list_all2 (\<lambda>kv s. sig_receivers s = spec_field (snd kv) ''receivers'' (JArr []))
          kvs (msg_signals m)"
    unfolding ms assign_multiplexer_map by (simp add: list_all2_map2 if_distrib cong: if_cong)
  with get_value_spec_field[OF snd] items show ?thesis by simp
qed

lemma load_message_nodes:
  assumes "load_message rt message name bus strict = Inr m" and "message_name_lists message"
  shows "is_name_list (msg_senders m)
         \<and> list_all (\<lambda>s. is_name_list (sig_receivers s)) (msg_signals m)
         \<and> elements (msg_senders m) \<union> (\<Union>s \<in> set (msg_signals m). elements (sig_receivers s))
           = spec_message_nodes message"
proof -
  note F = load_message_fields[OF assms(1)]
  from F have s: "msg_senders m = spec_field message ''senders'' (JArr [])" by simp
  from F have r: "list_all2 (\<lambda>kv s. sig_receivers s = spec_field (snd kv) ''receivers'' (JArr []))
             (items_of (spec_field message ''signals'' (JObj []))) (msg_signals m)" by simp
  from assms(2) have n: "is_name_list (spec_field message ''senders'' (JArr []))"
    "list_all (\<lambda>kv. is_name_list (spec_field (snd kv) ''receivers'' (JArr [])))
          (items_of (spec_field message ''signals'' (JObj [])))"
    by (simp_all add: message_name_lists_def)
  from r n(2) have "list_all (\<lambda>s. is_name_list (sig_receivers s)) (msg_signals m)"
    by (induction rule: list_all2_induct) simp_all
  moreover from r have "(\<Union>kv \<in> set (items_of (spec_field message ''signals'' (JObj []))).
            elements (spec_field (snd kv) ''receivers'' (JArr [])))
        = (\<Union>s \<in> set (msg_signals m). elements (sig_receivers s))"
    by (intro Union_list_all2) (simp add: list_all2_conv_all_nth)
  ultimately show ?thesis using s n(1) by (simp add: spec_message_nodes_def)
qed

lemma load_messages_returns:
  assumes "list_all2 (\<lambda>kv m. load_message rt (snd kv) (fst kv) bus strict = Inr m) items new"
      and "list_all (\<lambda>kv. message_name_lists (snd kv)) items"
  shows "\<exists>nodes'. load_messages rt items bus strict nodes msgs = Inr (nodes', msgs @ new)
           \<and> set nodes' = set nodes \<union> (\<Union>kv \<in> set items. spec_message_nodes (snd kv))
           \<and> (distinct nodes \<longrightarrow> distinct nodes')"
  using assms
proof (induction arbitrary: nodes msgs rule: list_all2_induct)
  case Nil
  then show ?case by simp
next
  case (Cons kv items m new)
  obtain nm msg where kv: "kv = (nm, msg)" by (cases kv)
  from Cons.hyps(1) kv have m: "load_message rt msg nm bus strict = Inr m" by simp
  from Cons.prems kv have t: "message_name_lists msg"
    and ts: "list_all (\<lambda>kv. message_name_lists (snd kv)) items" by simp_all
  note N = load_message_nodes[OF m t]
  from N have sn: "is_name_list (msg_senders m)" by simp
  from N have rn: "list_all (\<lambda>s. is_name_list (sig_receivers s)) (msg_signals m)" by simp
  from N have u: "elements (msg_senders m) \<union> (\<Union>s \<in> set (msg_signals m). elements (sig_receivers s))
           = spec_message_nodes msg" by simp
  from set_update_returns[OF sn, of rt nodes] obtain n1 where
    n1: "set_update rt nodes (msg_senders m) = Inr n1"
        "set n1 = set nodes \<union> elements (msg_senders m)" "distinct nodes \<longrightarrow> distinct n1"
    by blast
  from update_receivers_returns[OF rn, of rt n1] obtain n2 where
    n2: "update_receivers rt n1 (msg_signals m) = Inr n2"
        "set n2 = set n1 \<union> (\<Union>s \<in> set (msg_signals m). elements (sig_receivers s))"
        "distinct n1 \<longrightarrow> distinct n2"
    by blast
  from Cons.IH[OF ts, of n2 "msgs @ [m]"] obtain n3 where
    n3: "load_messages rt items bus strict n2 (msgs @ [m]) = Inr (n3, (msgs @ [m]) @ new)"
        "set n3 = set n2 \<union> (\<Union>kv \<in> set items. spec_message_nodes (snd kv))"
        "distinct n2 \<longrightarrow> distinct n3"
    by blast
  have "load_messages rt (kv # items) bus strict nodes msgs = Inr (n3, msgs @ m # new)"
    using kv m n1(1) n2(1) n3(1) by simp
  moreover have "set n3 = set nodes \<union> (\<Union>kv \<in> set (kv # items). spec_message_nodes (snd kv))"
    using n1(2) n2(2) n3(2) u kv by auto
  moreover have "distinct nodes \<longrightarrow> distinct n3" using n1(3) n2(3) n3(3) by simp
  ultimately show ?case by blast
qed

lemma spec_message_nodes_name:
  "spec_message_nodes (JStr s) = {}" "message_name_lists (JStr s)"
  by (simp_all add: spec_message_nodes_def message_name_lists_def)

lemma doc_name_lists_items:
  assumes "doc_name_lists items"
  shows "list_all (\<lambda>kv. message_name_lists (snd kv)) items
         \<and> (\<Union>kv \<in> set items. spec_message_nodes (snd kv)) = spec_node_set items"
  using assms unfolding doc_name_lists_def spec_node_set_def
proof (induction items)
  case Nil
  then show ?case by simp
next
  case (Cons kv items)
  show ?case
  proof (cases "fst kv = ''name''")
    case True
    with Cons.prems obtain s where "snd kv = JStr s" by (cases "snd kv") simp_all
    with True Cons show ?thesis by (simp add: spec_message_nodes_name)
  next
    case False
    with Cons show ?thesis by simp
  qed
qed

lemma load_string_eq:
  assumes "json_loads rt string = Inr odin"
      and "py_getitem odin ''messages'' = Inr (JObj items)"
      and "py_getitem odin ''busMetadata'' = Inr bj"
  shows "load_string rt string strict =
           bindE (load_messages rt items (case map_of items ''name'' of None \<Rightarrow> JNull | Some v \<Rightarrow> v)
                    strict [] [])
             (\<lambda>(nodes, messages).
                Inr \<lparr> db_messages = messages,
                      db_nodes = map (\<lambda>node. \<lparr> node_name = node, node_comment = None \<rparr>) nodes,
                      db_buses = (if truthy rt (case map_of items ''name'' of None \<Rightarrow> JNull | Some v \<Rightarrow> v)
                                  then [case map_of items ''name'' of None \<Rightarrow> JNull | Some v \<Rightarrow> v]
                                  else []),
                      db_version = ''0'' \<rparr>)"
  using assms by (auto simp: load_string_def load_root_def Let_def split: option.splits)

lemma reordered_name_list:
  assumes "is_name_list a" and "reordered a b"
  shows "is_name_list b"
proof -
  from assms(1) obtain xs where a: "a = JArr xs" by (cases a) simp_all
  show ?thesis
  proof (cases b)
    case (JArr ys)
    with assms a have "set xs = set ys" by (simp add: permuted_set)
    with assms(1) a JArr show ?thesis by (simp add: list_all_iff)
  qed (use assms a in simp_all)
qed

lemma message_reordered_name_lists:
  assumes "message_name_lists m" and "message_reordered m m'"
  shows "message_name_lists m'"
proof -
  from assms have s: "is_name_list (spec_field m' ''senders'' (JArr []))"
    by (auto simp: message_name_lists_def message_reordered_def intro: reordered_name_list)
  from assms(2) have "list_all2 (\<lambda>kv kv'. reordered (spec_field (snd kv) ''receivers'' (JArr []))
                                     (spec_field (snd kv') ''receivers'' (JArr [])))
          (items_of (spec_field m ''signals'' (JObj [])))
          (items_of (spec_field m' ''signals'' (JObj [])))"
    by (simp add: message_reordered_def)
  moreover from assms(1) have "list_all (\<lambda>kv. is_name_list (spec_field (snd kv) ''receivers'' (JArr [])))
          (items_of (spec_field m ''signals'' (JObj [])))"
    by (simp add: message_name_lists_def)
  ultimately have "list_all (\<lambda>kv. is_name_list (spec_field (snd kv) ''receivers'' (JArr [])))
          (items_of (spec_field m' ''signals'' (JObj [])))"
    by (induction rule: list_all2_induct) (auto intro: reordered_name_list)
  with s show ?thesis by (simp add: message_name_lists_def)
qed

lemma doc_reordered_name_lists:
  assumes "doc_reordered items items'" and "doc_name_lists items"
  shows "doc_name_lists items'"
  using assms unfolding doc_reordered_def doc_name_lists_def
  by (induction rule: list_all2_induct)
     (auto intro: message_reordered_name_lists split: if_splits)

lemma nodes_of_loaded:
  assumes "json_loads rt string = Inr odin"
      and "py_getitem odin ''messages'' = Inr (JObj items)"
      and "doc_name_lists items"
      and "load_string rt string strict = Inr db"
  shows "set (map node_name (db_nodes db)) = spec_node_set items
         \<and> distinct (map node_name (db_nodes db))"
proof -
  from load_string_InrD[OF assms(4)] assms(1,2) obtain nodes where
    lm: "load_messages rt items (case map_of items ''name'' of None \<Rightarrow> JNull | Some v \<Rightarrow> v)
           strict [] [] = Inr (nodes, db_messages db)"
    and nd: "db_nodes db = map (\<lambda>node. \<lparr> node_name = node, node_comment = None \<rparr>) nodes"
    by auto
  from load_messages_InrD[OF lm]
  have L: "list_all2 (\<lambda>kv m. load_message rt (snd kv) (fst kv)
                      (case map_of items ''name'' of None \<Rightarrow> JNull | Some v \<Rightarrow> v) strict = Inr m)
             items (db_messages db)" by simp
  note D = doc_name_lists_items[OF assms(3)]
  from D have t: "list_all (\<lambda>kv. message_name_lists (snd kv)) items" by simp
  from load_messages_returns[OF L t, of "[]" "[]"] lm D
  have "set nodes = spec_node_set items" "distinct nodes" by auto
  moreover from nd have "map node_name (db_nodes db) = nodes" by (simp add: comp_def)
  ultimately show ?thesis by simp
qed

text \<open>
  C9. For a document with \<open>messages\<close> and \<open>busMetadata\<close> in which every \<open>senders\<close> and
  every \<open>receivers\<close> is a list of strs (the data model of the specification):
  when \<open>_load_message\<close> builds every item of \<open>messages\<close>, \<open>load_string\<close> returns a
  database with these messages, and the names of its nodes, viewed as a set, are the
  union over all messages of the document of the senders and of the receivers of all
  signals, each name once; every database that \<open>load_string\<close> returns for the document
  has this set of node names; and a loaded document that differs only in the order in
  which senders and receivers appear gives the same set (senders A, B and receivers B, C
  give the set of A, B and C).
\<close>

theorem node_set_is_union:
  assumes "json_loads rt string = Inr odin"
      and "py_getitem odin ''messages'' = Inr (JObj items)"
      and "py_getitem odin ''busMetadata'' = Inr bus_json"
      and "doc_name_lists items"
  shows "(list_all2 (\<lambda>kv m. load_message rt (snd kv) (fst kv)
                       (case map_of items ''name'' of None \<Rightarrow> JNull | Some v \<Rightarrow> v) strict = Inr m)
            items msgs
          \<longrightarrow> (\<exists>db. load_string rt string strict = Inr db
                 \<and> db_messages db = msgs
                 \<and> set (map node_name (db_nodes db)) = spec_node_set items
                 \<and> distinct (map node_name (db_nodes db))))
         \<and> (\<forall>db. load_string rt string strict = Inr db
               \<longrightarrow> set (map node_name (db_nodes db)) = spec_node_set items
                 \<and> distinct (map node_name (db_nodes db)))
         \<and> (\<forall>rt' string' strict' odin' items' db db'.
               json_loads rt' string' = Inr odin'
               \<and> py_getitem odin' ''messages'' = Inr (JObj items')
               \<and> doc_reordered items items'
               \<and> load_string rt string strict = Inr db
               \<and> load_string rt' string' strict' = Inr db'
               \<longrightarrow> set (map node_name (db_nodes db')) = set (map node_name (db_nodes db)))"
proof (intro conjI impI allI)
  assume L: "list_all2 (\<lambda>kv m. load_message rt (snd kv) (fst kv)
                       (case map_of items ''name'' of None \<Rightarrow> JNull | Some v \<Rightarrow> v) strict = Inr m)
            items msgs"
  note D = doc_name_lists_items[OF assms(4)]
  from D have t: "list_all (\<lambda>kv. message_name_lists (snd kv)) items" by simp
  from load_messages_returns[OF L t, of "[]" "[]"] obtain nodes where
    lm: "load_messages rt items (case map_of items ''name'' of None \<Rightarrow> JNull | Some v \<Rightarrow> v)
           strict [] [] = Inr (nodes, msgs)"
    by auto
  let ?db = "\<lparr> db_messages = msgs,
               db_nodes = map (\<lambda>node. \<lparr> node_name = node, node_comment = None \<rparr>) nodes,
               db_buses = (if truthy rt (case map_of items ''name'' of None \<Rightarrow> JNull | Some v \<Rightarrow> v)
                           then [case map_of items ''name'' of None \<Rightarrow> JNull | Some v \<Rightarrow> v]
                           else []),
               db_version = ''0'' \<rparr>"
  have ls: "load_string rt string strict = Inr ?db"
    unfolding load_string_eq[OF assms(1,2,3)] lm by simp
  from nodes_of_loaded[OF assms(1,2,4) ls]
  have "set (map node_name (db_nodes ?db)) = spec_node_set items"
       "distinct (map node_name (db_nodes ?db))" by blast+
  moreover have "db_messages ?db = msgs" by simp
  ultimately show "\<exists>db. load_string rt string strict = Inr db
                 \<and> db_messages db = msgs
                 \<and> set (map node_name (db_nodes db)) = spec_node_set items
                 \<and> distinct (map node_name (db_nodes db))"
    using ls by blast
next
  fix db assume "load_string rt string strict = Inr db"
  from nodes_of_loaded[OF assms(1,2,4) this]
  show "set (map node_name (db_nodes db)) = spec_node_set items" 
       "distinct (map node_name (db_nodes db))" by blast+
next
  fix rt' :: "'a runtime" and string' strict' odin' items' db db'
  assume a: "json_loads rt' string' = Inr odin'
               \<and> py_getitem odin' ''messages'' = Inr (JObj items')
               \<and> doc_reordered items items'
               \<and> load_string rt string strict = Inr db
               \<and> load_string rt' string' strict' = Inr db'"
  then have r: "doc_reordered items items'" by simp
  from a have j: "json_loads rt' string' = Inr odin'"
     and g: "py_getitem odin' ''messages'' = Inr (JObj items')"
     and l: "load_string rt string strict = Inr db"
     and l': "load_string rt' string' strict' = Inr db'" by simp_all
  from nodes_of_loaded[OF j g doc_reordered_name_lists[OF r assms(4)] l']
       nodes_of_loaded[OF assms(1,2,4) l] doc_reordered_nodes[OF r]
  show "set (map node_name (db_nodes db')) = set (map node_name (db_nodes db))" by simp
qed

theorem node_set_is_union_witness:
  "(\<exists>db db'. load_string (example_rt (doc_of_messages two_messages)) [] True = Inr db
     \<and> load_string (example_rt (doc_of_messages two_messages_reordered)) [] True = Inr db'
     \<and> map msg_name (db_messages db) = [''M1'', ''M2'']
     \<and> doc_name_lists two_messages
     \<and> doc_reordered two_messages two_messages_reordered
     \<and> spec_node_set two_messages = {JStr ''A'', JStr ''B'', JStr ''C'', JStr ''D'', JStr ''E''}
     \<and> set (map node_name (db_nodes db)) = {JStr ''A'', JStr ''B'', JStr ''C'', JStr ''D'', JStr ''E''}
     \<and> distinct (map node_name (db_nodes db))
     \<and> set (map node_name (db_nodes db')) = set (map node_name (db_nodes db)))
   \<and> (\<exists>d. load_string (example_rt doc_nodes) [] True = Inr d
            \<and> set (map node_name (db_nodes d)) = {JStr ''A'', JStr ''B'', JStr ''C''})"
proof -
  let ?rt = "example_rt (doc_of_messages two_messages)"
  let ?rt' = "example_rt (doc_of_messages two_messages_reordered)"
  have "map_sum id msg_name (load_message ?rt (snd (two_messages ! 0)) ''M1'' JNull True) = Inr ''M1''"
    by (simp add: eval_defs two_messages_def)
  then obtain m1 where m1: "load_message ?rt (snd (two_messages ! 0)) ''M1'' JNull True = Inr m1"
      "msg_name m1 = ''M1''"
    by (cases "load_message ?rt (snd (two_messages ! 0)) ''M1'' JNull True") auto
  have "map_sum id msg_name (load_message ?rt (snd (two_messages ! 1)) ''M2'' JNull True) = Inr ''M2''"
    by (simp add: eval_defs two_messages_def)
  then obtain m2 where m2: "load_message ?rt (snd (two_messages ! 1)) ''M2'' JNull True = Inr m2"
      "msg_name m2 = ''M2''"
    by (cases "load_message ?rt (snd (two_messages ! 1)) ''M2'' JNull True") auto
  have j: "json_loads ?rt [] = Inr (doc_of_messages two_messages)"
    by (simp add: example_rt_def)
  have g: "py_getitem (doc_of_messages two_messages) ''messages'' = Inr (JObj two_messages)"
    by (simp add: doc_of_messages_def)
  have b: "py_getitem (doc_of_messages two_messages) ''busMetadata'' = Inr (JObj [])"
    by (simp add: doc_of_messages_def)
  have n: "doc_name_lists two_messages"
    by (simp add: doc_name_lists_def message_name_lists_def two_messages_def)
  have bus: "(case map_of two_messages ''name'' of None \<Rightarrow> JNull | Some v \<Rightarrow> v) = JNull"
    by (simp add: two_messages_def)
  have L: "list_all2 (\<lambda>kv m. load_message ?rt (snd kv) (fst kv)
                       (case map_of two_messages ''name'' of None \<Rightarrow> JNull | Some v \<Rightarrow> v) True = Inr m)
            two_messages [m1, m2]"
    unfolding bus using m1(1) m2(1) by (simp add: two_messages_def)
  note T = node_set_is_union[OF j g b n, of True "[m1, m2]"]
  from T L obtain db where db: "load_string ?rt [] True = Inr db" "db_messages db = [m1, m2]"
      "set (map node_name (db_nodes db)) = spec_node_set two_messages"
      "distinct (map node_name (db_nodes db))"
    by blast
  have names: "map msg_name (db_messages db) = [''M1'', ''M2'']"
    using db(2) m1(2) m2(2) by simp
  have u: "spec_node_set two_messages = {JStr ''A'', JStr ''B'', JStr ''C'', JStr ''D'', JStr ''E''}"
    by (auto simp: spec_node_set_def spec_message_nodes_def two_messages_def)
  have "map_sum id (\<lambda>db. length (db_messages db)) (load_string ?rt' [] True) = Inr 2"
    by (simp add: eval_defs doc_of_messages_def two_messages_reordered_def)
  then obtain db' where db': "load_string ?rt' [] True = Inr db'"
    by (cases "load_string ?rt' [] True") auto
  have j': "json_loads ?rt' [] = Inr (doc_of_messages two_messages_reordered)"
    by (simp add: example_rt_def)
  have g': "py_getitem (doc_of_messages two_messages_reordered) ''messages''
              = Inr (JObj two_messages_reordered)"
    by (simp add: doc_of_messages_def)
  have r: "doc_reordered two_messages two_messages_reordered"
    by (simp add: doc_reordered_def message_reordered_def permuted_def
                  two_messages_def two_messages_reordered_def)
  from T j' g' r db(1) db'
  have e: "set (map node_name (db_nodes db')) = set (map node_name (db_nodes db))" by blast
  have s: "set (map node_name (db_nodes db)) = {JStr ''A'', JStr ''B'', JStr ''C'', JStr ''D'', JStr ''E''}"
    using db(3) u by simp
  let ?it = "[(''M1'', JObj [(''message_id'', JInt 1),
                               (''senders'', JArr [JStr ''A'', JStr ''B'']),
                               (''signals'',
                                JObj [(''s'', JObj [(''start_position'', JInt 0),
                                                    (''width'', JInt 8),
                                                    (''receivers'', JArr [JStr ''B'', JStr ''C''])])])])]
             :: (string \<times> rat json) list"
  have "map_sum id (\<lambda>db. length (db_messages db)) (load_string (example_rt doc_nodes) [] True)
          = Inr 1"
    by (simp add: eval_defs doc_nodes_def)
  then obtain d where d: "load_string (example_rt doc_nodes) [] True = Inr d"
    by (cases "load_string (example_rt doc_nodes) [] True") auto
  have dj: "json_loads (example_rt doc_nodes) [] = Inr doc_nodes"
    by (simp add: example_rt_def)
  have dg: "py_getitem doc_nodes ''messages'' = Inr (JObj ?it)"
    and dm: "py_getitem doc_nodes ''busMetadata'' = Inr (JObj [])"
    by (simp_all add: doc_nodes_def)
  have dn: "doc_name_lists ?it"
    by (simp add: doc_name_lists_def message_name_lists_def)
  from node_set_is_union[OF dj dg dm dn, of True] d
  have "set (map node_name (db_nodes d)) = spec_node_set ?it" by blast
  also have "\<dots> = {JStr ''A'', JStr ''B'', JStr ''C''}"
    by (auto simp: spec_node_set_def spec_message_nodes_def)
  finally have abc: "\<exists>d. load_string (example_rt doc_nodes) [] True = Inr d
            \<and> set (map node_name (db_nodes d)) = {JStr ''A'', JStr ''B'', JStr ''C''}"
    using d by blast
  have two: "\<exists>db db'. load_string (example_rt (doc_of_messages two_messages)) [] True = Inr db
     \<and> load_string (example_rt (doc_of_messages two_messages_reordered)) [] True = Inr db'
     \<and> map msg_name (db_messages db) = [''M1'', ''M2'']
     \<and> doc_name_lists two_messages
     \<and> doc_reordered two_messages two_messages_reordered
     \<and> spec_node_set two_messages = {JStr ''A'', JStr ''B'', JStr ''C'', JStr ''D'', JStr ''E''}
     \<and> set (map node_name (db_nodes db)) = {JStr ''A'', JStr ''B'', JStr ''C'', JStr ''D'', JStr ''E''}
     \<and> distinct (map node_name (db_nodes db))
     \<and> set (map node_name (db_nodes db')) = set (map node_name (db_nodes db))"
    by (intro exI[of _ db] exI[of _ db'] conjI) (rule db db' names n r u s e)+
  from two abc show ?thesis by (intro conjI)
qed

end
